theory Spec2Isabelle
  imports Main "HOL-Library.Multiset"
begin

section \<open>Content acquisition: services/scraper.py\<close>

subsection \<open>Scraped records and task outcomes\<close>

text \<open>
  The dataclass \<open>ScrapedQuestion\<close>: one required field and seven optional ones
  (\<open>None\<close> is \<open>None\<close>).
\<close>

record ScrapedQuestion =
  question_text :: string
  options :: "string list option"
  correct_answer :: "string option"
  source_url :: "string option"
  source_name :: "string option"
  company_name :: "string option"
  topic :: "string option"
  difficulty :: "string option"

text \<open>
  What a coroutine can raise. \<open>Exception\<close> stands for any instance of Python's
  \<open>Exception\<close> with its message; \<open>CancelledError\<close> for a \<open>BaseException\<close> that
  is not an \<open>Exception\<close> (the \<open>isinstance(result, Exception)\<close> test tells them apart).
\<close>

datatype exn = Exception string | CancelledError

text \<open>The outcome of awaiting one task: it raised (\<open>Inl\<close>) or returned (\<open>Inr\<close>).\<close>

type_synonym 'a outcome = "exn + 'a"

subsection \<open>Question extraction\<close>

text \<open>
  \<open>str.strip()\<close> removes leading and trailing whitespace. Over one-byte characters the
  whitespace of Python's \<open>str\<close> is: tab, line feed, vertical tab, form feed, carriage
  return, the four separators 28 to 31, space, NEL (133) and the no-break space (160).
\<close>

definition is_space :: "char \<Rightarrow> bool" where
  "is_space c = (of_char c \<in> {9, 10, 11, 12, 13, 28, 29, 30, 31, 32, 133, 160 :: nat})"

definition strip :: "string \<Rightarrow> string" where
  "strip s = rev (dropWhile is_space (rev (dropWhile is_space s)))"

text \<open>
  The five regular expressions of \<open>question_patterns\<close>, in the order of the list:
  the \<open>Q<digits>\<close> prefix, the \<open>Question <digits>\<close> prefix, \<open>They asked\<close>,
  \<open>The interviewer asked\<close>, and a quoted sentence. Every one has a single group that
  ends in a question mark.
\<close>

datatype pattern = Q_Number | Question_Number | They_Asked | The_Interviewer_Asked | Quoted

definition question_patterns :: "pattern list" where
  "question_patterns = [Q_Number, Question_Number, They_Asked, The_Interviewer_Asked, Quoted]"

text \<open>
  The body of the inner loop: one match is stripped and appended when it is longer than
  ten characters and not yet in the list.
\<close>

definition keep_match :: "string list \<Rightarrow> string \<Rightarrow> string list" where
  "keep_match questions m =
     (let question = strip m
      in if length question > 10 \<and> question \<notin> set questions
         then questions @ [question] else questions)"

text \<open>
  \<open>_extract_questions_from_text\<close>. The regular-expression engine is a parameter:
  \<open>findall p text\<close> is the list that \<open>re.findall\<close> returns for pattern \<open>p\<close> (with
  \<open>IGNORECASE | MULTILINE\<close>), the group of every match in order of discovery.
\<close>

definition extract_questions_from_text ::
  "(pattern \<Rightarrow> string \<Rightarrow> string list) \<Rightarrow> string \<Rightarrow> string list" where
  "extract_questions_from_text findall text =
     take 5 (foldl (\<lambda>questions p. foldl keep_match questions (findall p text))
                   [] question_patterns)"

subsection \<open>The orchestrator\<close>

text \<open>
  \<open>asyncio.gather\<close>: with \<open>return_exceptions=True\<close> every awaited outcome, raised or
  returned, is an element of the result list, in the order of the arguments; without it
  the first exception is raised to the caller.
\<close>

fun first_raised :: "'a outcome list \<Rightarrow> exn option" where
  "first_raised [] = None"
| "first_raised (Inl e # rs) = Some e"
| "first_raised (Inr v # rs) = first_raised rs"

definition gather :: "bool \<Rightarrow> 'a outcome list \<Rightarrow> exn + 'a outcome list" where
  "gather return_exceptions tasks =
     (if return_exceptions then Inr tasks
      else (case first_raised tasks of
              Some e \<Rightarrow> Inl e
            | None \<Rightarrow> Inr tasks))"

text \<open>
  The four adapters of a \<open>WebScraper\<close>, each given by the outcome of awaiting it.
  Their bodies (HTTP and HTML parsing) stay outside the model.
\<close>

record WebScraper =
  scrape_tcyonline :: "string \<Rightarrow> ScrapedQuestion list outcome"
  scrape_prepinsta :: "string \<Rightarrow> ScrapedQuestion list outcome"
  scrape_indiabix :: "string \<Rightarrow> ScrapedQuestion list outcome"
  scrape_reddit_interviews :: "string option \<Rightarrow> ScrapedQuestion list outcome"

text \<open>Python's truth value of an optional string: \<open>None\<close> and the empty string are false.\<close>

fun truthy :: "string option \<Rightarrow> bool" where
  "truthy None = False"
| "truthy (Some s) = (s \<noteq> [])"

text \<open>
  The loop over the gathered results: a list extends \<open>all_questions\<close>; an exception is
  only logged; anything else is passed over.
\<close>

fun merge_results :: "ScrapedQuestion list \<Rightarrow> ScrapedQuestion list outcome list \<Rightarrow> ScrapedQuestion list" where
  "merge_results all_questions [] = all_questions"
| "merge_results all_questions (Inr result # results) =
     merge_results (all_questions @ result) results"
| "merge_results all_questions (Inl (Exception msg) # results) =
     merge_results all_questions results"
| "merge_results all_questions (Inl CancelledError # results) =
     merge_results all_questions results"

text \<open>What one gathered outcome contributes to the result.\<close>

fun contributed :: "'a list outcome \<Rightarrow> 'a list" where
  "contributed (Inr result) = result"
| "contributed (Inl e) = []"

definition scrape_all_sources ::
  "WebScraper \<Rightarrow> string \<Rightarrow> string option \<Rightarrow> exn + ScrapedQuestion list" where
  "scrape_all_sources self the_topic company =
     (let tasks = [scrape_tcyonline self the_topic,
                   scrape_prepinsta self the_topic,
                   scrape_indiabix self the_topic];
          tasks = (if truthy company
                   then tasks @ [scrape_reddit_interviews self company] else tasks)
      in case gather True tasks of
           Inl e \<Rightarrow> Inl e
         | Inr results \<Rightarrow> Inr (merge_results [] results))"


section \<open>Persistent data: models/\<close>

text \<open>
  A \<open>datetime\<close> is a number of seconds on the time line and a \<open>date\<close> a number of
  days; \<open>date_of\<close> is \<open>datetime.date()\<close>. Where a query compares a \<open>DateTime\<close> column
  with a date, the date stands for its midnight.
\<close>

type_synonym datetime = int
type_synonym date = int

definition date_of :: "datetime \<Rightarrow> date" where
  "date_of t = t div 86400"

definition midnight :: "date \<Rightarrow> datetime" where
  "midnight d = d * 86400"

text \<open>\<open>timedelta(weeks=w, days=d)\<close>, in seconds.\<close>

definition timedelta :: "int \<Rightarrow> int \<Rightarrow> int" where
  "timedelta weeks days = (7 * weeks + days) * 86400"

text \<open>The columns of each table that the two services read or write.\<close>

record User =
  u_id :: int
  u_is_active :: bool
  notification_enabled :: bool
  quiz_completion_goal :: int

record Topic =
  t_id :: int
  t_name :: string

record UserTopic =
  ut_user_id :: int
  topic_id :: int
  ut_is_active :: bool
  priority :: int

record DailyQuizSchedule =
  dq_user_id :: int
  scheduled_date :: datetime
  topics :: "int list"
  questions_per_topic :: int
  is_completed :: bool

record NotificationSchedule =
  ns_id :: int
  ns_user_id :: int
  ns_notification_type :: string
  scheduled_time :: datetime
  frequency :: string
  ns_is_active :: bool
  last_sent :: "datetime option"
  next_send :: "datetime option"
  title_template :: string
  message_template :: string

record Notification =
  n_user_id :: int
  n_title :: string
  n_message :: string
  n_notification_type :: string
  n_fcm_token :: "string option"
  n_data :: "(string \<times> string) list option"
  n_is_sent :: bool
  n_sent_at :: "datetime option"
  n_fcm_message_id :: "string option"

text \<open>The committed contents of the database, one row list per table.\<close>

record database =
  tbl_users :: "User list"
  tbl_topics :: "Topic list"
  tbl_user_topics :: "UserTopic list"
  tbl_daily_quiz_schedules :: "DailyQuizSchedule list"
  tbl_notification_schedules :: "NotificationSchedule list"
  tbl_notifications :: "Notification list"

text \<open>
  What a database call can raise: \<open>scalar_one_or_none\<close> on more than one row, or a
  fault of the database itself.
\<close>

datatype error = MultipleResultsFound | OperationalError

fun scalar_one_or_none :: "'a list \<Rightarrow> error + 'a option" where
  "scalar_one_or_none [] = Inr None"
| "scalar_one_or_none [row] = Inr (Some row)"
| "scalar_one_or_none (row # row' # rows) = Inl MultipleResultsFound"

section \<open>Quiz-schedule generation: services/scheduler.py\<close>

text \<open>
  An \<open>AsyncSession\<close> as the generator uses it: the committed database, the quiz
  schedules added and not yet committed, and whether a query flushes them first (the
  session factory lives in \<open>app.core.database\<close>, so both settings are modelled).
\<close>

record session =
  committed :: database
  added :: "DailyQuizSchedule list"
  autoflush :: bool

definition AsyncSessionLocal :: "bool \<Rightarrow> database \<Rightarrow> session" where
  "AsyncSessionLocal flush d = \<lparr>committed = d, added = [], autoflush = flush\<rparr>"

text \<open>The faults one invocation of the generator can meet.\<close>

record faults =
  commit_fails :: bool
  rollback_fails :: bool

definition session_add :: "session \<Rightarrow> DailyQuizSchedule \<Rightarrow> session" where
  "session_add db row = db\<lparr>added := added db @ [row]\<rparr>"

definition session_commit :: "faults \<Rightarrow> session \<Rightarrow> error + session" where
  "session_commit f db =
     (if commit_fails f then Inl OperationalError
      else Inr (db\<lparr>committed := (committed db)\<lparr>tbl_daily_quiz_schedules :=
                      tbl_daily_quiz_schedules (committed db) @ added db\<rparr>,
                  added := []\<rparr>))"

definition session_rollback :: "faults \<Rightarrow> session \<Rightarrow> error + session" where
  "session_rollback f db =
     (if rollback_fails f then Inl OperationalError else Inr (db\<lparr>added := []\<rparr>))"

text \<open>The quiz schedules a query of the session sees.\<close>

definition visible_quiz_schedules :: "session \<Rightarrow> DailyQuizSchedule list" where
  "visible_quiz_schedules db =
     (if autoflush db then tbl_daily_quiz_schedules (committed db) @ added db
      else tbl_daily_quiz_schedules (committed db))"

text \<open>
  The first query of the loop body: the user's schedules with
  \<open>today <= scheduled_date < tomorrow\<close>.
\<close>

definition existing_schedule :: "session \<Rightarrow> User \<Rightarrow> date \<Rightarrow> date \<Rightarrow> DailyQuizSchedule list" where
  "existing_schedule db user today tomorrow =
     filter (\<lambda>q. dq_user_id q = u_id user \<and> midnight today \<le> scheduled_date q
                   \<and> scheduled_date q < midnight tomorrow)
            (visible_quiz_schedules db)"

text \<open>
  The second query: the user's active \<open>UserTopic\<close> rows joined with their \<open>Topic\<close>,
  ordered by descending priority (rows of equal priority keep the order of the join).
\<close>

definition user_topics_query :: "database \<Rightarrow> User \<Rightarrow> (UserTopic \<times> Topic) list" where
  "user_topics_query d user =
     sort_key (\<lambda>(ut, t). - priority ut)
       [(ut, t). ut \<leftarrow> tbl_user_topics d, t \<leftarrow> tbl_topics d,
                 topic_id ut = t_id t, ut_user_id ut = u_id user \<and> ut_is_active ut]"

text \<open>The \<open>for user in users\<close> loop.\<close>

fun schedule_users :: "date \<Rightarrow> date \<Rightarrow> datetime \<Rightarrow> User list \<Rightarrow> session \<Rightarrow> error + session" where
  "schedule_users today tomorrow now [] db = Inr db"
| "schedule_users today tomorrow now (user # users) db =
     (case scalar_one_or_none (existing_schedule db user today tomorrow) of
        Inl e \<Rightarrow> Inl e
      | Inr (Some q) \<Rightarrow> schedule_users today tomorrow now users db
      | Inr None \<Rightarrow>
          (let user_topics = user_topics_query (committed db) user
           in if user_topics = [] then schedule_users today tomorrow now users db
              else
                let selected_topics = map (\<lambda>(ut, t). topic_id ut) (take 5 user_topics);
                    quiz_schedule = \<lparr>dq_user_id = u_id user, scheduled_date = now,
                                     topics = selected_topics, questions_per_topic = 1,
                                     is_completed = False\<rparr>
                in schedule_users today tomorrow now users (session_add db quiz_schedule)))"

text \<open>
  \<open>_create_daily_quiz_schedules\<close>: the \<open>try\<close> block is the loop followed by the commit;
  the \<open>except\<close> block logs and rolls back, and only a fault of the rollback leaves the
  function as an exception. One invocation reads the clock as \<open>now\<close>.
\<close>

definition create_daily_quiz_schedules :: "faults \<Rightarrow> datetime \<Rightarrow> session \<Rightarrow> error + session" where
  "create_daily_quiz_schedules f now db =
     (let today = date_of now;
          tomorrow = today + 1;
          users = filter u_is_active (tbl_users (committed db))
      in case (case schedule_users today tomorrow now users db of
                 Inl e \<Rightarrow> Inl e
               | Inr db' \<Rightarrow> session_commit f db') of
           Inr db' \<Rightarrow> Inr db'
         | Inl e \<Rightarrow> session_rollback f db)"

text \<open>
  One iteration of \<open>_daily_quiz_scheduler\<close>. The result is the database the closed
  session leaves behind, the state the job is in while it sleeps, and the seconds it
  sleeps: 3600 after the \<open>try\<close> block, 300 in the \<open>except\<close> block.
\<close>

datatype phase = Idle | BackingOff | Terminated

definition daily_quiz_scheduler_step ::
  "bool \<Rightarrow> bool \<Rightarrow> bool \<Rightarrow> faults \<Rightarrow> datetime \<Rightarrow> database \<Rightarrow> database \<times> phase \<times> nat" where
  "daily_quiz_scheduler_step is_running flush open_fails f now d =
     (if \<not> is_running then (d, Terminated, 0)
      else case (if open_fails then Inl OperationalError
                 else create_daily_quiz_schedules f now (AsyncSessionLocal flush d)) of
             Inr db \<Rightarrow> (committed db, Idle, 3600)
           | Inl e \<Rightarrow> (d, BackingOff, 300))"


section \<open>Notification dispatch: services/notification.py\<close>

subsection \<open>Sending one notification\<close>

text \<open>\<open>str\<close> of an integer, for the f-strings of the payload.\<close>

function str_nat :: "nat \<Rightarrow> string" where
  "str_nat n =
     (if n < 10 then [char_of (48 + n)]
      else str_nat (n div 10) @ [char_of (48 + n mod 10)])"
  by pat_completeness auto
termination
  by (relation "measure id") auto

definition str_int :: "int \<Rightarrow> string" where
  "str_int i = (if i < 0 then CHR ''-'' # str_nat (nat (- i)) else str_nat (nat i))"

text \<open>
  The service object: \<open>firebase_app\<close> is false when \<open>_initialize_firebase\<close> left the
  attribute \<open>None\<close>.
\<close>

record NotificationService =
  firebase_app :: bool

text \<open>A message handed to \<open>messaging.send\<close>.\<close>

record fcm_message =
  m_token :: string
  m_title :: string
  m_body :: string
  m_data :: "(string \<times> string) list"

text \<open>
  The world a dispatcher run acts on: the database, the calls of \<open>send_notification\<close>
  made so far (user id and token), and the messages handed to \<open>messaging.send\<close>.
\<close>

record world =
  w_db :: database
  w_calls :: "(int \<times> string option) list"
  w_fcm :: "fcm_message list"

text \<open>
  The faults one call of \<open>send_notification\<close> can meet: storing the \<open>Notification\<close>
  row (add, commit, refresh), \<open>messaging.send\<close> itself, and the commit that marks the
  row as sent.
\<close>

record send_faults =
  record_fails :: bool
  fcm_fails :: bool
  mark_fails :: bool

definition mark_sent :: "datetime \<Rightarrow> Notification list \<Rightarrow> Notification list" where
  "mark_sent utcnow rows =
     (case rev rows of
        [] \<Rightarrow> []
      | n # earlier \<Rightarrow>
          rev earlier @ [n\<lparr>n_is_sent := True, n_sent_at := Some utcnow,
                          n_fcm_message_id := Some ''response''\<rparr>])"

text \<open>
  \<open>send_notification\<close>. The argument \<open>db\<close> tells whether a session was passed. Both
  \<open>except\<close> blocks return \<open>False\<close>.
\<close>

definition send_notification ::
  "NotificationService \<Rightarrow> send_faults \<Rightarrow> datetime \<Rightarrow> int \<Rightarrow> string \<Rightarrow> string \<Rightarrow> string \<Rightarrow>
   string option \<Rightarrow> (string \<times> string) list option \<Rightarrow> bool \<Rightarrow> world \<Rightarrow> bool \<times> world" where
  "send_notification self sf utcnow user_id title message notification_type fcm_token data db w0 =
     (let w = w0\<lparr>w_calls := w_calls w0 @ [(user_id, fcm_token)]\<rparr>
      in if \<not> firebase_app self then (False, w)
         else
           let notification =
                 \<lparr>n_user_id = user_id, n_title = title, n_message = message,
                  n_notification_type = notification_type, n_fcm_token = fcm_token,
                  n_data = data, n_is_sent = False, n_sent_at = None,
                  n_fcm_message_id = None\<rparr>
           in if db \<and> record_fails sf then (False, w)
              else
                let w1 = (if db
                          then w\<lparr>w_db := (w_db w)\<lparr>tbl_notifications :=
                                   tbl_notifications (w_db w) @ [notification]\<rparr>\<rparr>
                          else w)
                in case fcm_token of
                     None \<Rightarrow> (True, w1)
                   | Some token \<Rightarrow>
                       if token = [] then (True, w1)
                       else
                         let fcm_message =
                               \<lparr>m_token = token, m_title = title, m_body = message,
                                m_data = (case data of None \<Rightarrow> [] | Some kvs \<Rightarrow> kvs)\<rparr>;
                             w2 = w1\<lparr>w_fcm := w_fcm w1 @ [fcm_message]\<rparr>
                         in if fcm_fails sf then (False, w2)
                            else if db
                            then (if mark_fails sf then (False, w2)
                                  else (True, w2\<lparr>w_db := (w_db w2)\<lparr>tbl_notifications :=
                                          mark_sent utcnow (tbl_notifications (w_db w2))\<rparr>\<rparr>))
                            else (True, w2))"

text \<open>\<open>send_quiz_reminder\<close>; the title starts with the four bytes of a book emoji.\<close>

definition send_quiz_reminder ::
  "NotificationService \<Rightarrow> send_faults \<Rightarrow> datetime \<Rightarrow> User \<Rightarrow> string option \<Rightarrow> bool \<Rightarrow> world \<Rightarrow>
   bool \<times> world" where
  "send_quiz_reminder self sf utcnow user fcm_token db w =
     (let title = [char_of (240 :: nat), char_of (159 :: nat), char_of (147 :: nat),
                   char_of (154 :: nat)] @ '' Time for your daily quiz!'';
          message = ''Complete your quiz to stay on track with your '' @
                    str_int (quiz_completion_goal user) @ '' daily goal.'';
          data = [(''type'', ''quiz_reminder''), (''action'', ''open_quiz''),
                  (''user_id'', str_int (u_id user))]
      in send_notification self sf utcnow (u_id user) title message ''quiz_reminder''
           fcm_token (Some data) db w)"

subsection \<open>Selecting the due schedules\<close>

record pending_notification =
  p_schedule :: NotificationSchedule
  p_user :: User
  p_title :: string
  p_message :: string

text \<open>
  The join of \<open>get_pending_notifications\<close>. A \<open>next_send\<close> that is \<open>NULL\<close> never
  satisfies \<open>next_send <= now\<close>.
\<close>

definition is_due :: "datetime \<Rightarrow> NotificationSchedule \<Rightarrow> User \<Rightarrow> bool" where
  "is_due now schedule user =
     (ns_is_active schedule
      \<and> (case next_send schedule of None \<Rightarrow> False | Some t \<Rightarrow> t \<le> now)
      \<and> notification_enabled user
      \<and> u_is_active user)"

definition due_schedules :: "database \<Rightarrow> datetime \<Rightarrow> (NotificationSchedule \<times> User) list" where
  "due_schedules d now =
     [(schedule, user). schedule \<leftarrow> tbl_notification_schedules d, user \<leftarrow> tbl_users d,
                        ns_user_id schedule = u_id user, is_due now schedule user]"

text \<open>The user's completed quiz schedules with \<open>scheduled_date >= today\<close>.\<close>

definition completed_quizzes :: "database \<Rightarrow> User \<Rightarrow> date \<Rightarrow> DailyQuizSchedule list" where
  "completed_quizzes d user today =
     filter (\<lambda>q. dq_user_id q = u_id user \<and> midnight today \<le> scheduled_date q
                   \<and> is_completed q)
            (tbl_daily_quiz_schedules d)"

fun collect_pending ::
  "database \<Rightarrow> date \<Rightarrow> (NotificationSchedule \<times> User) list \<Rightarrow> pending_notification list \<Rightarrow>
   error + pending_notification list" where
  "collect_pending d today [] pending = Inr pending"
| "collect_pending d today ((schedule, user) # rows) pending =
     (case scalar_one_or_none (completed_quizzes d user today) of
        Inl e \<Rightarrow> Inl e
      | Inr (Some completed_today) \<Rightarrow> collect_pending d today rows pending
      | Inr None \<Rightarrow>
          collect_pending d today rows
            (pending @ [\<lparr>p_schedule = schedule, p_user = user,
                         p_title = title_template schedule,
                         p_message = message_template schedule\<rparr>]))"

text \<open>
  \<open>get_pending_notifications\<close>: \<open>utcnow\<close> and \<open>now\<close> are the two clocks it reads; any
  exception, of a query or of \<open>scalar_one_or_none\<close>, gives the empty list.
\<close>

definition get_pending_notifications ::
  "bool \<Rightarrow> database \<Rightarrow> datetime \<Rightarrow> datetime \<Rightarrow> pending_notification list" where
  "get_pending_notifications query_fails d utcnow now =
     (if query_fails then []
      else case collect_pending d (date_of now) (due_schedules d utcnow) [] of
             Inl e \<Rightarrow> []
           | Inr pending \<Rightarrow> pending)"

subsection \<open>Processing the pending notifications\<close>

text \<open>
  The faults of one dispatcher run. Those of a pair are keyed by the id of its
  schedule: the faults of its send, and of the commit that stores the updated schedule.
\<close>

record dispatch_faults =
  select_fails :: bool
  send_faults_of :: "int \<Rightarrow> send_faults"
  update_fails :: "int \<Rightarrow> bool"

text \<open>The assignments of the \<open>if success\<close> block.\<close>

definition reschedule :: "datetime \<Rightarrow> NotificationSchedule \<Rightarrow> NotificationSchedule" where
  "reschedule utcnow schedule0 =
     (let schedule = schedule0\<lparr>last_sent := Some utcnow\<rparr>
      in if frequency schedule = ''daily''
         then schedule\<lparr>next_send := Some (scheduled_time schedule + timedelta 0 1)\<rparr>
         else if frequency schedule = ''weekly''
         then schedule\<lparr>next_send := Some (scheduled_time schedule + timedelta 1 0)\<rparr>
         else if frequency schedule = ''monthly''
         then schedule\<lparr>next_send := Some (scheduled_time schedule + timedelta 0 30)\<rparr>
         else schedule)"

text \<open>Storing a changed schedule: the row with its primary key is rewritten.\<close>

definition update_schedule ::
  "int \<Rightarrow> (NotificationSchedule \<Rightarrow> NotificationSchedule) \<Rightarrow> database \<Rightarrow> database" where
  "update_schedule k g d =
     d\<lparr>tbl_notification_schedules :=
         map (\<lambda>row. if ns_id row = k then g row else row) (tbl_notification_schedules d)\<rparr>"

text \<open>
  The \<open>for notification_data in pending\<close> loop. A commit that fails ends the loop (the
  \<open>except\<close> block of \<open>process_pending_notifications\<close> logs it) and the change of that
  schedule is not stored.
\<close>

fun process_loop ::
  "NotificationService \<Rightarrow> dispatch_faults \<Rightarrow> datetime \<Rightarrow> pending_notification list \<Rightarrow> world \<Rightarrow> world" where
  "process_loop self f utcnow [] w = w"
| "process_loop self f utcnow (notification_data # pending) w =
     (let schedule = p_schedule notification_data;
          user = p_user notification_data;
          (success, w1) = send_quiz_reminder self (send_faults_of f (ns_id schedule)) utcnow
                            user None True w
      in if success
         then (if update_fails f (ns_id schedule) then w1
               else process_loop self f utcnow pending
                      (w1\<lparr>w_db := update_schedule (ns_id schedule) (reschedule utcnow) (w_db w1)\<rparr>))
         else process_loop self f utcnow pending w1)"

definition process_pending_notifications ::
  "NotificationService \<Rightarrow> dispatch_faults \<Rightarrow> datetime \<Rightarrow> datetime \<Rightarrow> world \<Rightarrow> world" where
  "process_pending_notifications self f utcnow now w =
     process_loop self f utcnow
       (get_pending_notifications (select_fails f) (w_db w) utcnow now) w"

text \<open>A sequence of dispatcher runs, each with its own faults and clock readings.\<close>

record run =
  r_faults :: dispatch_faults
  r_utcnow :: datetime
  r_now :: datetime

fun dispatcher_runs :: "NotificationService \<Rightarrow> run list \<Rightarrow> world \<Rightarrow> world list" where
  "dispatcher_runs self [] w = [w]"
| "dispatcher_runs self (r # rs) w =
     w # dispatcher_runs self rs
           (process_pending_notifications self (r_faults r) (r_utcnow r) (r_now r) w)"

section \<open>Vocabulary of the properties\<close>

text \<open>The quiz schedules of one user on one calendar day.\<close>

definition entries_on :: "database \<Rightarrow> int \<Rightarrow> date \<Rightarrow> DailyQuizSchedule list" where
  "entries_on d uid day =
     filter (\<lambda>q. dq_user_id q = uid \<and> date_of (scheduled_date q) = day)
            (tbl_daily_quiz_schedules d)"

text \<open>The invariant of the quiz schedules: no user has two of them on one day.\<close>

definition one_entry_per_user_day :: "database \<Rightarrow> bool" where
  "one_entry_per_user_day d =
     distinct (map (\<lambda>q. (dq_user_id q, date_of (scheduled_date q)))
                   (tbl_daily_quiz_schedules d))"

text \<open>
  The key constraints of the schema: \<open>users.id\<close> and \<open>topics.id\<close> are primary keys,
  and \<open>user_topics.topic_id\<close> is a foreign key into \<open>topics\<close>.
\<close>

definition users_pk :: "database \<Rightarrow> bool" where
  "users_pk d = distinct (map u_id (tbl_users d))"

definition topics_keys :: "database \<Rightarrow> bool" where
  "topics_keys d =
     (distinct (map t_id (tbl_topics d)) \<and>
      list_all (\<lambda>ut. topic_id ut \<in> set (map t_id (tbl_topics d))) (tbl_user_topics d))"

text \<open>The active topic associations of a user, in table order.\<close>

definition active_topics :: "database \<Rightarrow> User \<Rightarrow> UserTopic list" where
  "active_topics d user =
     filter (\<lambda>ut. ut_user_id ut = u_id user \<and> ut_is_active ut) (tbl_user_topics d)"

text \<open>
  A user the generator creates a schedule for, and the schedule it creates: no schedule
  of the user on the day, and a non-empty result of the topics query.
\<close>

definition eligible :: "database \<Rightarrow> date \<Rightarrow> User \<Rightarrow> bool" where
  "eligible d day user = (entries_on d (u_id user) day = [] \<and> user_topics_query d user \<noteq> [])"

definition new_quiz_schedule :: "database \<Rightarrow> datetime \<Rightarrow> User \<Rightarrow> DailyQuizSchedule" where
  "new_quiz_schedule d now user =
     \<lparr>dq_user_id = u_id user, scheduled_date = now,
      topics = map (\<lambda>(ut, t). topic_id ut) (take 5 (user_topics_query d user)),
      questions_per_topic = 1, is_completed = False\<rparr>"

text \<open>The schedules one invocation at \<open>now\<close> creates when nothing fails.\<close>

definition created :: "database \<Rightarrow> datetime \<Rightarrow> DailyQuizSchedule list" where
  "created d now =
     map (new_quiz_schedule d now)
         (filter (eligible d (date_of now)) (filter u_is_active (tbl_users d)))"

text \<open>
  The database after one invocation of the generator from the scheduler loop, on a
  fresh session.
\<close>

definition generator_run :: "bool \<Rightarrow> faults \<Rightarrow> datetime \<Rightarrow> database \<Rightarrow> database" where
  "generator_run flush f now d = fst (daily_quiz_scheduler_step True flush False f now d)"

text \<open>The stored schedule with primary key \<open>k\<close>, and its \<open>next_send\<close>.\<close>

definition schedule_row :: "database \<Rightarrow> int \<Rightarrow> NotificationSchedule option" where
  "schedule_row d k = find (\<lambda>row. ns_id row = k) (tbl_notification_schedules d)"

definition next_send_of :: "database \<Rightarrow> int \<Rightarrow> datetime option" where
  "next_send_of d k = (case schedule_row d k of None \<Rightarrow> None | Some row \<Rightarrow> next_send row)"

definition schedules_pk :: "database \<Rightarrow> bool" where
  "schedules_pk d = distinct (map ns_id (tbl_notification_schedules d))"

text \<open>
  \<open>not_earlier old new\<close>: the value \<open>new\<close> of a nullable time is not earlier than
  \<open>old\<close>; an unset time precedes every time.
\<close>

fun not_earlier :: "datetime option \<Rightarrow> datetime option \<Rightarrow> bool" where
  "not_earlier None new = True"
| "not_earlier (Some a) None = False"
| "not_earlier (Some a) (Some b) = (a \<le> b)"

text \<open>
  A schedule is anchored when the assignments of a successful send would not move its
  \<open>next_send\<close> back.
\<close>

definition anchored :: "NotificationSchedule \<Rightarrow> bool" where
  "anchored row = not_earlier (next_send row) (next_send (reschedule 0 row))"

definition row_anchored :: "database \<Rightarrow> int \<Rightarrow> bool" where
  "row_anchored d k = (case schedule_row d k of None \<Rightarrow> True | Some row \<Rightarrow> anchored row)"

text \<open>The send of the pair with schedule \<open>k\<close> succeeds (token \<open>None\<close>, session given).\<close>

definition send_ok :: "NotificationService \<Rightarrow> dispatch_faults \<Rightarrow> int \<Rightarrow> bool" where
  "send_ok self f k = (firebase_app self \<and> \<not> record_fails (send_faults_of f k))"

text \<open>
  The ids of the schedules a run dispatches successfully: the send succeeded and the
  commit of the update succeeded, up to the first commit that fails.
\<close>

fun dispatched :: "NotificationService \<Rightarrow> dispatch_faults \<Rightarrow> pending_notification list \<Rightarrow> int list" where
  "dispatched self f [] = []"
| "dispatched self f (p # ps) =
     (if send_ok self f (ns_id (p_schedule p))
      then (if update_fails f (ns_id (p_schedule p)) then []
            else ns_id (p_schedule p) # dispatched self f ps)
      else dispatched self f ps)"

text \<open>The user has a completed quiz schedule dated on the day of \<open>now\<close>.\<close>

definition completed_today :: "database \<Rightarrow> User \<Rightarrow> datetime \<Rightarrow> bool" where
  "completed_today d user now =
     list_ex (\<lambda>q. dq_user_id q = u_id user \<and> date_of (scheduled_date q) = date_of now
                   \<and> is_completed q)
             (tbl_daily_quiz_schedules d)"

text \<open>The \<open>next_send\<close> of schedule \<open>k\<close> before and after each run of a sequence.\<close>

definition next_send_history ::
  "NotificationService \<Rightarrow> run list \<Rightarrow> world \<Rightarrow> int \<Rightarrow> datetime option list" where
  "next_send_history self rs w k = map (\<lambda>w'. next_send_of (w_db w') k) (dispatcher_runs self rs w)"

section \<open>A small database for the scenarios\<close>

text \<open>
  Two active users. User 1 follows three topics with priorities 3, 5 and 1 (in table
  order) and has a daily reminder anchored at time 0 whose \<open>next_send\<close> is 200000;
  user 2 follows nothing. There is no quiz schedule yet.
\<close>

definition example_user :: User where
  "example_user = \<lparr>u_id = 1, u_is_active = True, notification_enabled = True,
                    quiz_completion_goal = 1\<rparr>"

definition idle_user :: User where
  "idle_user = \<lparr>u_id = 2, u_is_active = True, notification_enabled = True,
                 quiz_completion_goal = 1\<rparr>"

definition example_schedule :: NotificationSchedule where
  "example_schedule =
     \<lparr>ns_id = 7, ns_user_id = 1, ns_notification_type = ''quiz_reminder'',
      scheduled_time = 0, frequency = ''daily'', ns_is_active = True,
      last_sent = None, next_send = Some 200000,
      title_template = ''Daily Quiz Reminder'',
      message_template = ''Time to complete your daily quiz!''\<rparr>"

definition example_database :: database where
  "example_database =
     \<lparr>tbl_users = [example_user, idle_user],
      tbl_topics = [\<lparr>t_id = 10, t_name = ''DBMS''\<rparr>, \<lparr>t_id = 20, t_name = ''OS''\<rparr>,
                    \<lparr>t_id = 30, t_name = ''Networks''\<rparr>],
      tbl_user_topics =
        [\<lparr>ut_user_id = 1, topic_id = 20, ut_is_active = True, priority = 3\<rparr>,
         \<lparr>ut_user_id = 1, topic_id = 10, ut_is_active = True, priority = 5\<rparr>,
         \<lparr>ut_user_id = 1, topic_id = 30, ut_is_active = True, priority = 1\<rparr>],
      tbl_daily_quiz_schedules = [],
      tbl_notification_schedules = [example_schedule],
      tbl_notifications = []\<rparr>"

text \<open>A record as a structured-site adapter builds it.\<close>

definition sample_question :: "string \<Rightarrow> string \<Rightarrow> ScrapedQuestion" where
  "sample_question the_topic q =
     \<lparr>question_text = q, options = None, correct_answer = None,
      source_url = Some ''https://prepinsta.com/questions'', source_name = Some ''PrepInsta'',
      company_name = None, topic = Some the_topic, difficulty = Some ''medium''\<rparr>"

definition no_faults :: faults where
  "no_faults = \<lparr>commit_fails = False, rollback_fails = False\<rparr>"

definition commit_fault :: faults where
  "commit_fault = \<lparr>commit_fails = True, rollback_fails = False\<rparr>"

definition example_world :: world where
  "example_world = \<lparr>w_db = example_database, w_calls = [], w_fcm = []\<rparr>"

definition example_service :: NotificationService where
  "example_service = \<lparr>firebase_app = True\<rparr>"

definition quiet :: dispatch_faults where
  "quiet = \<lparr>select_fails = False,
            send_faults_of = (\<lambda>k. \<lparr>record_fails = False, fcm_fails = False, mark_fails = False\<rparr>),
            update_fails = (\<lambda>k. False)\<rparr>"

text \<open>The example after user 1 has completed a quiz dated on the day of time 300000.\<close>

definition completed_world :: world where
  "completed_world =
     example_world\<lparr>w_db := example_database\<lparr>tbl_daily_quiz_schedules :=
        [\<lparr>dq_user_id = 1, scheduled_date = 290000, topics = [10, 20, 30],
          questions_per_topic = 1, is_completed = True\<rparr>]\<rparr>\<rparr>"

definition no_firebase :: NotificationService where
  "no_firebase = \<lparr>firebase_app = False\<rparr>"

text \<open>
  The example with the reminder anchored: its \<open>next_send\<close> is 50000, before the
  86400 a send sets. Two runs follow, at 60000 and at 90000.
\<close>

definition anchored_world :: world where
  "anchored_world =
     example_world\<lparr>w_db := example_database\<lparr>tbl_notification_schedules :=
        [example_schedule\<lparr>next_send := Some 50000\<rparr>]\<rparr>\<rparr>"

definition two_runs :: "run list" where
  "two_runs = [\<lparr>r_faults = quiet, r_utcnow = 60000, r_now = 60000\<rparr>,
               \<lparr>r_faults = quiet, r_utcnow = 90000, r_now = 90000\<rparr>]"

section \<open>Properties of the scraper\<close>

subsection \<open>Extraction\<close>

lemma rev_dropWhile_rev_prefix:
  "xs = rev (dropWhile P (rev xs)) @ rev (takeWhile P (rev xs))"
  by (metis rev_append rev_rev_ident takeWhile_dropWhile_id)

lemma dropWhile_rev_dropWhile_rev:
  assumes "xs = [] \<or> \<not> P (hd xs)"
  shows "dropWhile P (rev (dropWhile P (rev xs))) = rev (dropWhile P (rev xs))"
proof (cases "rev (dropWhile P (rev xs)) = []")
  case True
  then show ?thesis by (simp only: dropWhile.simps)
next
  case False
  then have "hd (rev (dropWhile P (rev xs))) = hd xs"
    by (metis hd_append2 rev_dropWhile_rev_prefix)
  moreover from False have "xs \<noteq> []" by auto
  ultimately have "\<not> P (hd (rev (dropWhile P (rev xs))))"
    using assms by simp
  then show ?thesis
    by (simp add: dropWhile_eq_self_iff)
qed

lemma strip_front: "dropWhile is_space (strip s) = strip s"
  unfolding strip_def
  by (rule dropWhile_rev_dropWhile_rev) (metis hd_dropWhile)

lemma strip_idem: "strip (strip s) = strip s"
  using strip_front [of s] by (simp add: strip_def)

text \<open>
  The invariant of the accumulator \<open>questions\<close>: no string twice, and every string
  already stripped and longer than ten characters.
\<close>

lemma keep_match_inv:
  assumes "distinct qs" "\<forall>q\<in>set qs. strip q = q \<and> 10 < length q"
  shows "distinct (keep_match qs m) \<and>
         (\<forall>q\<in>set (keep_match qs m). strip q = q \<and> 10 < length q)"
  using assms by (auto simp: keep_match_def Let_def strip_idem)

lemma foldl_keep_match_inv:
  "distinct qs \<Longrightarrow> \<forall>q\<in>set qs. strip q = q \<and> 10 < length q \<Longrightarrow>
   distinct (foldl keep_match qs ms) \<and>
   (\<forall>q\<in>set (foldl keep_match qs ms). strip q = q \<and> 10 < length q)"
proof (induction ms arbitrary: qs)
  case Nil
  then show ?case by simp
next
  case (Cons m ms)
  have "distinct (keep_match qs m)"
    and "\<forall>q\<in>set (keep_match qs m). strip q = q \<and> 10 < length q"
    using keep_match_inv [OF Cons.prems] by blast+
  from Cons.IH [OF this] show ?case by simp
qed

lemma patterns_inv:
  "distinct qs \<Longrightarrow> \<forall>q\<in>set qs. strip q = q \<and> 10 < length q \<Longrightarrow>
   distinct (foldl (\<lambda>questions p. foldl keep_match questions (findall p text)) qs ps) \<and>
   (\<forall>q\<in>set (foldl (\<lambda>questions p. foldl keep_match questions (findall p text)) qs ps).
      strip q = q \<and> 10 < length q)"
proof (induction ps arbitrary: qs)
  case Nil
  then show ?case by simp
next
  case (Cons p ps)
  have "distinct (foldl keep_match qs (findall p text))"
    and "\<forall>q\<in>set (foldl keep_match qs (findall p text)). strip q = q \<and> 10 < length q"
    using foldl_keep_match_inv [OF Cons.prems] by blast+
  from Cons.IH [OF this] show ?case by simp
qed

text \<open>
  C6. Whatever the text and whatever the regular-expression engine finds in it,
  \<open>_extract_questions_from_text\<close> returns at most five strings, no string twice, and
  every returned string is longer than ten characters after trimming.
\<close>

theorem extract_questions_bounded:
  "length (extract_questions_from_text findall text) \<le> 5 \<and>
   distinct (extract_questions_from_text findall text) \<and>
   list_all (\<lambda>q. 10 < length (strip q)) (extract_questions_from_text findall text)"
proof -
  let ?all = "foldl (\<lambda>questions p. foldl keep_match questions (findall p text))
                [] question_patterns"
  have inv: "distinct ?all \<and> (\<forall>q\<in>set ?all. strip q = q \<and> 10 < length q)"
    by (rule patterns_inv) simp_all
  have "length (take 5 ?all) \<le> 5" by simp
  moreover have "distinct (take 5 ?all)" using inv by simp
  moreover have "list_all (\<lambda>q. 10 < length (strip q)) (take 5 ?all)"
    using inv by (auto simp: list_all_iff dest: in_set_takeD)
  ultimately show ?thesis by (simp add: extract_questions_from_text_def)
qed

subsection \<open>The orchestrator\<close>

lemma merge_results_concat:
  "merge_results acc rs = acc @ concat (map contributed rs)"
  by (induction acc rs rule: merge_results.induct) simp_all

text \<open>
  C1. For every topic, every company and every outcome of every adapter,
  \<open>scrape_all_sources\<close> returns (it never raises), and what it returns is what the
  adapters that returned contributed, in the order TCYOnline, PrepInsta, IndiaBIX and
  then Reddit when a company is given (a non-empty string, as the \<open>if company\<close> of the
  source reads it); nothing is removed, so a question two adapters return stays twice.
  When every adapter raises, the result is the empty list.
\<close>

theorem scrape_all_sources_total:
  "scrape_all_sources self the_topic company =
     Inr (contributed (scrape_tcyonline self the_topic) @
          contributed (scrape_prepinsta self the_topic) @
          contributed (scrape_indiabix self the_topic) @
          (if truthy company then contributed (scrape_reddit_interviews self company)
           else []))"
  by (simp add: scrape_all_sources_def gather_def merge_results_concat Let_def)

text \<open>
  The scenario of two failing adapters: TCYOnline and IndiaBIX raise, PrepInsta returns
  two records; the result is exactly those two records.
\<close>

lemma scrape_all_sources_two_fail:
  "scrape_all_sources
     \<lparr>scrape_tcyonline = (\<lambda>t. Inl (Exception ''timeout'')),
      scrape_prepinsta = (\<lambda>t. Inr [sample_question t ''first?'', sample_question t ''second?'']),
      scrape_indiabix = (\<lambda>t. Inl (Exception ''503'')),
      scrape_reddit_interviews = (\<lambda>c. Inl CancelledError)\<rparr>
     ''DBMS'' None
   = Inr [sample_question ''DBMS'' ''first?'', sample_question ''DBMS'' ''second?'']"
  by (simp add: scrape_all_sources_def gather_def)

text \<open>
  One document on a toy engine: the match is kept once, stripped; the short match and
  the repeated one are dropped.
\<close>

lemma extract_questions_example:
  "extract_questions_from_text
     (\<lambda>p text. if p = Q_Number
                 then [''  What is a deadlock?  '', ''Why?'', ''What is a deadlock?'']
                 else [])
     ''any text''
   = [''What is a deadlock?'']"
  by (simp add: extract_questions_from_text_def question_patterns_def keep_match_def strip_def
        is_space_def Let_def)


section \<open>Properties of the quiz-schedule generator\<close>

subsection \<open>The loop over the users\<close>

lemma same_day_iff:
  "(midnight day \<le> t \<and> t < midnight (day + 1)) \<longleftrightarrow> date_of t = day"
  unfolding midnight_def date_of_def by (auto simp: algebra_simps)

lemma existing_schedule_committed:
  assumes "\<forall>q\<in>set (added db). dq_user_id q \<noteq> u_id user"
  shows "existing_schedule db user day (day + 1) = entries_on (committed db) (u_id user) day"
proof -
  have "filter (\<lambda>q. dq_user_id q = u_id user \<and> midnight day \<le> scheduled_date q
                   \<and> scheduled_date q < midnight (day + 1)) (added db) = []"
    using assms by (auto simp: filter_empty_conv)
  then show ?thesis
    by (simp add: existing_schedule_def visible_quiz_schedules_def entries_on_def same_day_iff)
qed

lemma scalar_one_or_none_short:
  "length rows \<le> 1 \<Longrightarrow>
   scalar_one_or_none rows = Inr (case rows of [] \<Rightarrow> None | row # _ \<Rightarrow> Some row)"
  by (cases rows rule: scalar_one_or_none.cases) simp_all

lemma schedule_users_result:
  assumes "distinct (map u_id us)"
    and "\<forall>q\<in>set (added db). dq_user_id q \<notin> set (map u_id us)"
    and "\<forall>u\<in>set us. length (entries_on (committed db) (u_id u) day) \<le> 1"
  shows "schedule_users day (day + 1) now us db =
           Inr (db\<lparr>added := added db @
                  map (new_quiz_schedule (committed db) now)
                      (filter (eligible (committed db) day) us)\<rparr>)"
  using assms
proof (induction us arbitrary: db)
  case Nil
  then show ?case by simp
next
  case (Cons u us)
  let ?d = "committed db"
  have ex: "existing_schedule db u day (day + 1) = entries_on ?d (u_id u) day"
    using Cons.prems(2) by (intro existing_schedule_committed) auto
  have short: "length (entries_on ?d (u_id u) day) \<le> 1"
    using Cons.prems(3) by simp
  have rest: "\<forall>q\<in>set (added db). dq_user_id q \<notin> set (map u_id us)"
    using Cons.prems(2) by auto
  have dist: "distinct (map u_id us)" using Cons.prems(1) by simp
  have bound: "\<forall>v\<in>set us. length (entries_on ?d (u_id v) day) \<le> 1"
    using Cons.prems(3) by simp
  show ?case
  proof (cases "eligible ?d day u")
    case True
    let ?db' = "session_add db (new_quiz_schedule ?d now u)"
    have c: "committed ?db' = ?d" by (simp add: session_add_def)
    have a: "\<forall>q\<in>set (added ?db'). dq_user_id q \<notin> set (map u_id us)"
      using rest Cons.prems(1) by (auto simp: session_add_def new_quiz_schedule_def)
    have "schedule_users day (day + 1) now us ?db' =
            Inr (?db'\<lparr>added := added ?db' @
                   map (new_quiz_schedule ?d now) (filter (eligible ?d day) us)\<rparr>)"
      using Cons.IH [OF dist a] bound c by simp
    moreover have "schedule_users day (day + 1) now (u # us) db =
                     schedule_users day (day + 1) now us ?db'"
      using True by (simp add: ex eligible_def new_quiz_schedule_def Let_def)
    ultimately show ?thesis
      using True by (simp add: session_add_def)
  next
    case False
    have "schedule_users day (day + 1) now (u # us) db = schedule_users day (day + 1) now us db"
    proof (cases "entries_on ?d (u_id u) day")
      case Nil
      then show ?thesis using False by (simp add: ex eligible_def)
    next
      case (Cons q qs)
      with short have "qs = []" by simp
      with Cons show ?thesis by (simp add: ex)
    qed
    then show ?thesis
      using Cons.IH [OF dist rest bound] False by simp
  qed
qed


lemma filter_key_short:
  "distinct (map f xs) \<Longrightarrow> length (filter (\<lambda>x. f x = k) xs) \<le> 1"
proof (induction xs)
  case Nil
  then show ?case by simp
next
  case (Cons x xs)
  show ?case
  proof (cases "f x = k")
    case True
    with Cons.prems have "\<forall>y\<in>set xs. f y \<noteq> k"
      by (auto simp: image_iff)
    then have "filter (\<lambda>y. f y = k) xs = []"
      by (simp add: filter_empty_conv)
    with True show ?thesis by simp
  next
    case False
    with Cons show ?thesis by simp
  qed
qed

lemma entries_on_short:
  assumes "one_entry_per_user_day d"
  shows "length (entries_on d uid day) \<le> 1"
proof -
  have "length (filter (\<lambda>q. (dq_user_id q, date_of (scheduled_date q)) = (uid, day))
                 (tbl_daily_quiz_schedules d)) \<le> 1"
    using assms unfolding one_entry_per_user_day_def by (rule filter_key_short)
  then show ?thesis
    by (simp add: entries_on_def)
qed

lemma create_daily_quiz_schedules_result:
  assumes "users_pk d" and "one_entry_per_user_day d"
  shows "create_daily_quiz_schedules f now (AsyncSessionLocal flush d) =
           (if commit_fails f
            then (if rollback_fails f then Inl OperationalError
                  else Inr (AsyncSessionLocal flush d))
            else Inr (AsyncSessionLocal flush
                        (d\<lparr>tbl_daily_quiz_schedules :=
                             tbl_daily_quiz_schedules d @ created d now\<rparr>)))"
proof -
  let ?db = "AsyncSessionLocal flush d"
  let ?us = "filter u_is_active (tbl_users d)"
  have "distinct (map u_id ?us)"
    using assms(1) by (simp add: users_pk_def distinct_map_filter)
  moreover have "\<forall>q\<in>set (added ?db). dq_user_id q \<notin> set (map u_id ?us)"
    by (simp add: AsyncSessionLocal_def)
  moreover have "\<forall>u\<in>set ?us. length (entries_on (committed ?db) (u_id u) (date_of now)) \<le> 1"
    using entries_on_short [OF assms(2)] by (simp add: AsyncSessionLocal_def)
  ultimately have "schedule_users (date_of now) (date_of now + 1) now ?us ?db =
      Inr (?db\<lparr>added := added ?db @
             map (new_quiz_schedule (committed ?db) now)
                 (filter (eligible (committed ?db) (date_of now)) ?us)\<rparr>)"
    by (rule schedule_users_result)
  then have loop: "schedule_users (date_of now) (date_of now + 1) now ?us ?db =
      Inr (?db\<lparr>added := created d now\<rparr>)"
    by (simp add: AsyncSessionLocal_def created_def)
  show ?thesis
    unfolding create_daily_quiz_schedules_def Let_def
    using loop
    by (simp add: AsyncSessionLocal_def session_commit_def session_rollback_def)
qed

lemma generator_run_result:
  assumes "users_pk d" and "one_entry_per_user_day d"
  shows "generator_run flush f now d =
           (if commit_fails f then d
            else d\<lparr>tbl_daily_quiz_schedules := tbl_daily_quiz_schedules d @ created d now\<rparr>)"
proof -
  have c: "committed (AsyncSessionLocal flush x) = x" for x
    by (simp add: AsyncSessionLocal_def)
  show ?thesis
    by (simp add: generator_run_def daily_quiz_scheduler_step_def
          create_daily_quiz_schedules_result [OF assms] c)
qed


subsection \<open>The topics query\<close>

lemma filter_key_one:
  assumes "distinct (map f xs)" and "k \<in> set (map f xs)"
  shows "\<exists>x. filter (\<lambda>x. f x = k) xs = [x]"
proof -
  from assms(2) have "filter (\<lambda>x. f x = k) xs \<noteq> []"
    by (auto simp: filter_empty_conv)
  moreover have "length (filter (\<lambda>x. f x = k) xs) \<le> 1"
    using assms(1) by (rule filter_key_short)
  ultimately show ?thesis
    by (cases "filter (\<lambda>x. f x = k) xs") auto
qed

lemma join_row:
  assumes "distinct (map t_id ts)" and "topic_id ut \<in> set (map t_id ts)"
  shows "map fst (concat (map (\<lambda>t. if topic_id ut = t_id t then (if c then [(ut, t)] else []) else []) ts))
           = (if c then [ut] else [])"
proof -
  have "concat (map (\<lambda>t. if topic_id ut = t_id t then (if c then [(ut, t)] else []) else []) ts)
          = (if c then map (\<lambda>t. (ut, t)) (filter (\<lambda>t. t_id t = topic_id ut) ts) else [])"
    by (induction ts) auto
  moreover obtain t where "filter (\<lambda>t. t_id t = topic_id ut) ts = [t]"
    using filter_key_one [OF assms] by blast
  ultimately show ?thesis by simp
qed

lemma join_active_topics:
  assumes "topics_keys d"
  shows "map fst [(ut, t). ut \<leftarrow> tbl_user_topics d, t \<leftarrow> tbl_topics d,
                 topic_id ut = t_id t, ut_user_id ut = u_id user \<and> ut_is_active ut]
           = active_topics d user"
proof -
  have "list_all (\<lambda>ut. topic_id ut \<in> set (map t_id (tbl_topics d))) uts \<Longrightarrow>
        map fst [(ut, t). ut \<leftarrow> uts, t \<leftarrow> tbl_topics d,
                 topic_id ut = t_id t, ut_user_id ut = u_id user \<and> ut_is_active ut]
           = filter (\<lambda>ut. ut_user_id ut = u_id user \<and> ut_is_active ut) uts" for uts
  proof (induction uts)
    case Nil
    then show ?case by simp
  next
    case (Cons ut uts)
    have "distinct (map t_id (tbl_topics d))"
      using assms by (simp add: topics_keys_def)
    moreover have "topic_id ut \<in> set (map t_id (tbl_topics d))"
      using Cons.prems by simp
    ultimately have "map fst (concat (map (\<lambda>t. if topic_id ut = t_id t
                        then (if ut_user_id ut = u_id user \<and> ut_is_active ut then [(ut, t)] else [])
                        else []) (tbl_topics d)))
           = (if ut_user_id ut = u_id user \<and> ut_is_active ut then [ut] else [])"
      by (rule join_row)
    moreover have "map fst [(ut, t). ut \<leftarrow> uts, t \<leftarrow> tbl_topics d,
                 topic_id ut = t_id t, ut_user_id ut = u_id user \<and> ut_is_active ut]
           = filter (\<lambda>ut. ut_user_id ut = u_id user \<and> ut_is_active ut) uts"
      using Cons by simp
    ultimately show ?case by simp
  qed
  from this [of "tbl_user_topics d"] show ?thesis
    using assms by (simp add: topics_keys_def active_topics_def)
qed

lemma ranked_mset:
  assumes "topics_keys d"
  shows "mset (map fst (user_topics_query d user)) = mset (active_topics d user)"
proof -
  have "mset (map fst (user_topics_query d user)) =
        mset (map fst [(ut, t). ut \<leftarrow> tbl_user_topics d, t \<leftarrow> tbl_topics d,
                 topic_id ut = t_id t, ut_user_id ut = u_id user \<and> ut_is_active ut])"
    unfolding user_topics_query_def by simp
  then show ?thesis
    by (simp only: join_active_topics [OF assms])
qed

lemma ranked_sorted:
  "sorted_wrt (\<lambda>a b. priority b \<le> priority a) (map fst (user_topics_query d user))"
proof -
  have "sorted (map (\<lambda>(ut, t). - priority ut) (user_topics_query d user))"
    unfolding user_topics_query_def by (rule sorted_sort_key)
  then have "sorted_wrt (\<lambda>x y. (case x of (ut, t) \<Rightarrow> - priority ut) \<le> (case y of (ut, t) \<Rightarrow> - priority ut))
               (user_topics_query d user)"
    by (simp add: sorted_map)
  then have "sorted_wrt (\<lambda>x y. priority (fst y) \<le> priority (fst x)) (user_topics_query d user)"
    by (rule sorted_wrt_mono_rel [rotated]) (auto split: prod.splits)
  then show ?thesis
    by (simp add: sorted_wrt_map)
qed

lemma ranked_empty:
  assumes "topics_keys d"
  shows "user_topics_query d user = [] \<longleftrightarrow> active_topics d user = []"
  using ranked_mset [OF assms, of user]
  by (metis map_is_Nil_conv mset_zero_iff)

lemma new_quiz_schedule_topics:
  "topics (new_quiz_schedule d now user) = map topic_id (take 5 (map fst (user_topics_query d user)))"
  by (simp add: new_quiz_schedule_def take_map split_def comp_def)


subsection \<open>What one invocation adds\<close>

lemma user_topics_query_quiz_update [simp]:
  "user_topics_query (d\<lparr>tbl_daily_quiz_schedules := qs\<rparr>) user = user_topics_query d user"
  by (simp add: user_topics_query_def)

lemma new_quiz_schedule_key [simp]:
  "dq_user_id (new_quiz_schedule d now user) = u_id user"
  "scheduled_date (new_quiz_schedule d now user) = now"
  by (simp_all add: new_quiz_schedule_def)

lemma new_of_user:
  assumes "distinct (map u_id us)" and "user \<in> set us"
  shows "filter (\<lambda>q. dq_user_id q = u_id user \<and> date_of (scheduled_date q) = date_of now)
                (map (new_quiz_schedule d now) (filter P us))
           = (if P user then [new_quiz_schedule d now user] else [])"
  using assms
proof (induction us)
  case Nil
  then show ?case by simp
next
  case (Cons u us)
  show ?case
  proof (cases "u = user")
    case True
    with Cons.prems(1) have "\<forall>v\<in>set us. u_id v \<noteq> u_id user"
      by (auto simp: image_iff)
    then have "filter (\<lambda>q. dq_user_id q = u_id user \<and> date_of (scheduled_date q) = date_of now)
                (map (new_quiz_schedule d now) (filter P us)) = []"
      by (auto simp: filter_empty_conv)
    with True show ?thesis by simp
  next
    case False
    with Cons.prems have in_rest: "user \<in> set us" by simp
    with Cons.prems(1) have "u_id u \<noteq> u_id user"
      by (auto simp: image_iff)
    then have "filter (\<lambda>q. dq_user_id q = u_id user \<and> date_of (scheduled_date q) = date_of now)
                (map (new_quiz_schedule d now) (filter P (u # us)))
          = filter (\<lambda>q. dq_user_id q = u_id user \<and> date_of (scheduled_date q) = date_of now)
                (map (new_quiz_schedule d now) (filter P us))"
      by simp
    then show ?thesis
      using Cons.IH in_rest Cons.prems(1) by simp
  qed
qed

lemma created_of_user:
  assumes "users_pk d" and "user \<in> set (tbl_users d)" and "u_is_active user"
  shows "filter (\<lambda>q. dq_user_id q = u_id user \<and> date_of (scheduled_date q) = date_of now)
                (created d now)
           = (if eligible d (date_of now) user then [new_quiz_schedule d now user] else [])"
proof -
  have "distinct (map u_id (filter u_is_active (tbl_users d)))"
    using assms(1) by (simp add: users_pk_def distinct_map_filter)
  moreover have "user \<in> set (filter u_is_active (tbl_users d))"
    using assms(2,3) by simp
  ultimately show ?thesis
    unfolding created_def by (rule new_of_user)
qed

lemma entries_on_after:
  assumes "users_pk d" and "user \<in> set (tbl_users d)" and "u_is_active user"
  shows "entries_on (d\<lparr>tbl_daily_quiz_schedules := tbl_daily_quiz_schedules d @ created d now\<rparr>)
           (u_id user) (date_of now)
         = entries_on d (u_id user) (date_of now) @
           (if eligible d (date_of now) user then [new_quiz_schedule d now user] else [])"
  using created_of_user [OF assms, of now] by (simp add: entries_on_def)

lemma created_keys:
  "map (\<lambda>q. (dq_user_id q, date_of (scheduled_date q))) (created d now)
     = map (\<lambda>u. (u_id u, date_of now))
           (filter (eligible d (date_of now)) (filter u_is_active (tbl_users d)))"
  by (simp add: created_def comp_def)

lemma invariant_after:
  assumes "users_pk d" and "one_entry_per_user_day d"
  shows "one_entry_per_user_day
           (d\<lparr>tbl_daily_quiz_schedules := tbl_daily_quiz_schedules d @ created d now\<rparr>)"
proof -
  let ?key = "\<lambda>q. (dq_user_id q, date_of (scheduled_date q))"
  let ?us = "filter (eligible d (date_of now)) (filter u_is_active (tbl_users d))"
  have "distinct (map u_id ?us)"
    using assms(1) by (simp add: users_pk_def distinct_map_filter)
  then have "distinct (map (\<lambda>u. (u_id u, date_of now)) ?us)"
    by (simp add: distinct_map inj_on_def)
  then have new: "distinct (map ?key (created d now))"
    by (simp only: created_keys)
  have apart: "set (map ?key (tbl_daily_quiz_schedules d)) \<inter> set (map ?key (created d now)) = {}"
  proof (rule ccontr)
    assume "\<not> ?thesis"
    then obtain q u where q: "q \<in> set (tbl_daily_quiz_schedules d)"
      and u: "u \<in> set ?us" and same: "?key q = (u_id u, date_of now)"
      unfolding created_keys by auto
    from q same have "q \<in> set (entries_on d (u_id u) (date_of now))"
      by (simp add: entries_on_def)
    moreover from u have "entries_on d (u_id u) (date_of now) = []"
      by (simp add: eligible_def)
    ultimately show False by simp
  qed
  show ?thesis
    using assms(2) new apart by (simp add: one_entry_per_user_day_def)
qed

lemma generator_run_invariant:
  assumes "users_pk d" and "one_entry_per_user_day d"
  shows "users_pk (generator_run flush f now d) \<and>
         one_entry_per_user_day (generator_run flush f now d)"
  using assms invariant_after [OF assms, of now]
  by (simp add: generator_run_result [OF assms] users_pk_def)

lemma second_run_creates_nothing:
  assumes "users_pk d" and "date_of now2 = date_of now1"
  shows "created (d\<lparr>tbl_daily_quiz_schedules := tbl_daily_quiz_schedules d @ created d now1\<rparr>) now2 = []"
proof -
  let ?d1 = "d\<lparr>tbl_daily_quiz_schedules := tbl_daily_quiz_schedules d @ created d now1\<rparr>"
  have "\<not> eligible ?d1 (date_of now2) user"
    if "user \<in> set (tbl_users d)" and "u_is_active user" for user
  proof
    assume e: "eligible ?d1 (date_of now2) user"
    then have none: "entries_on ?d1 (u_id user) (date_of now1) = []"
      and some: "user_topics_query d user \<noteq> []"
      using assms(2) by (simp_all add: eligible_def)
    from none entries_on_after [OF assms(1) that, of now1]
    have "entries_on d (u_id user) (date_of now1) = []" and "\<not> eligible d (date_of now1) user"
      by (auto split: if_splits)
    with some show False by (simp add: eligible_def)
  qed
  then show ?thesis
    by (simp add: created_def filter_empty_conv)
qed


subsection \<open>The scheduler loop and a failing commit\<close>

text \<open>
  C2 (as amended). A failing batch commit does not reach the scheduler loop. The job
  body catches it and rolls the batch back; when the rollback succeeds the job returns
  normally, the database is as before, and the loop sleeps the normal hour in state
  \<open>Idle\<close>. The five-minute backoff is taken only when a fault escapes the job body:
  the rollback fails too, or the session could not be opened.
\<close>

theorem commit_fault_swallowed:
  assumes "commit_fails f"
  shows "daily_quiz_scheduler_step True flush open_fails f now d =
           (if open_fails \<or> rollback_fails f then (d, BackingOff, 300) else (d, Idle, 3600))"
proof -
  let ?db = "AsyncSessionLocal flush d"
  have raised: "\<exists>e. (case schedule_users (date_of now) (date_of now + 1) now
                (filter u_is_active (tbl_users (committed ?db))) ?db of
           Inl e \<Rightarrow> Inl e | Inr db' \<Rightarrow> session_commit f db') = Inl e"
    using assms by (simp add: session_commit_def split: sum.splits)
  then have "create_daily_quiz_schedules f now ?db = session_rollback f ?db"
    by (auto simp: create_daily_quiz_schedules_def Let_def)
  then show ?thesis
    by (simp add: daily_quiz_scheduler_step_def session_rollback_def AsyncSessionLocal_def)
qed


text \<open>
  The claim as stated fails: with a failing commit and a working rollback the job body
  returns a value, and the iteration ends in \<open>Idle\<close> with the sleep of 3600 seconds.
\<close>

theorem commit_fault_not_propagated:
  "commit_fails commit_fault \<and>
   create_daily_quiz_schedules commit_fault 300000 (AsyncSessionLocal True example_database)
     = Inr (AsyncSessionLocal True example_database) \<and>
   daily_quiz_scheduler_step True True False commit_fault 300000 example_database
     = (example_database, Idle, 3600)"
  by (simp add: daily_quiz_scheduler_step_def create_daily_quiz_schedules_def
        AsyncSessionLocal_def commit_fault_def session_commit_def session_rollback_def Let_def
        split: sum.splits)

theorem commit_fault_swallowed_witness:
  "commit_fails \<lparr>commit_fails = True, rollback_fails = True\<rparr> \<and>
   daily_quiz_scheduler_step True True False \<lparr>commit_fails = True, rollback_fails = True\<rparr>
       300000 example_database
     = (example_database, BackingOff, 300) \<and>
   daily_quiz_scheduler_step True True False \<lparr>commit_fails = True, rollback_fails = False\<rparr>
       300000 example_database
     = (example_database, Idle, 3600)"
  using commit_fault_swallowed [of "\<lparr>commit_fails = True, rollback_fails = True\<rparr>" True False
          300000 example_database]
        commit_fault_swallowed [of "\<lparr>commit_fails = True, rollback_fails = False\<rparr>" True False
          300000 example_database]
  by simp

subsection \<open>The schedule a user gets\<close>

text \<open>
  C8. Let the keys of the schema hold, no user have two schedules on one day, and the
  commit succeed. For an active user with no schedule today the generator returns
  without error, and afterwards the user's schedules of today are: nothing when the
  user has no active topic; otherwise exactly one entry, dated \<open>now\<close>, with
  \<open>questions_per_topic = 1\<close>, whose topics are the first five topic ids of the query
  result. That result is the user's active topic associations (as a multiset) in
  descending order of priority.
\<close>

theorem generator_creates_one_entry:
  assumes "users_pk d" and "one_entry_per_user_day d" and "topics_keys d"
    and "\<not> commit_fails f"
    and "user \<in> set (tbl_users d)" and "u_is_active user"
    and "entries_on d (u_id user) (date_of now) = []"
  shows "\<exists>db'. create_daily_quiz_schedules f now (AsyncSessionLocal flush d) = Inr db' \<and>
           mset (map fst (user_topics_query d user)) = mset (active_topics d user) \<and>
           sorted_wrt (\<lambda>a b. priority b \<le> priority a) (map fst (user_topics_query d user)) \<and>
           entries_on (committed db') (u_id user) (date_of now) =
             (if active_topics d user = [] then []
              else [\<lparr>dq_user_id = u_id user, scheduled_date = now,
                      topics = map topic_id (take 5 (map fst (user_topics_query d user))),
                      questions_per_topic = 1, is_completed = False\<rparr>])"
proof -
  let ?d' = "d\<lparr>tbl_daily_quiz_schedules := tbl_daily_quiz_schedules d @ created d now\<rparr>"
  have run: "create_daily_quiz_schedules f now (AsyncSessionLocal flush d) =
               Inr (AsyncSessionLocal flush ?d')"
    using assms(4) by (simp add: create_daily_quiz_schedules_result [OF assms(1,2)])
  have el: "eligible d (date_of now) user \<longleftrightarrow> active_topics d user \<noteq> []"
    using assms(7) ranked_empty [OF assms(3), of user] by (simp add: eligible_def)
  have new: "new_quiz_schedule d now user =
               \<lparr>dq_user_id = u_id user, scheduled_date = now,
                topics = map topic_id (take 5 (map fst (user_topics_query d user))),
                questions_per_topic = 1, is_completed = False\<rparr>"
    by (simp add: new_quiz_schedule_def take_map split_def comp_def)
  have "entries_on ?d' (u_id user) (date_of now) =
          (if active_topics d user = [] then [] else [new_quiz_schedule d now user])"
    using entries_on_after [OF assms(1,5,6), of now] assms(7) el by simp
  then have "entries_on (committed (AsyncSessionLocal flush ?d')) (u_id user) (date_of now) =
          (if active_topics d user = [] then []
           else [\<lparr>dq_user_id = u_id user, scheduled_date = now,
                   topics = map topic_id (take 5 (map fst (user_topics_query d user))),
                   questions_per_topic = 1, is_completed = False\<rparr>])"
    by (simp only: new) (simp add: AsyncSessionLocal_def)
  with run ranked_mset [OF assms(3), of user] ranked_sorted [of d user]
  show ?thesis by blast
qed

text \<open>
  The scenario of priorities 5, 3 and 1 (stored in the order 3, 5, 1): the entry
  created for user 1 lists the topics 10, 20, 30.
\<close>

theorem generator_creates_one_entry_witness:
  "users_pk example_database \<and> one_entry_per_user_day example_database \<and>
   topics_keys example_database \<and> \<not> commit_fails no_faults \<and>
   example_user \<in> set (tbl_users example_database) \<and> u_is_active example_user \<and>
   entries_on example_database (u_id example_user) (date_of 300000) = [] \<and>
   map priority (active_topics example_database example_user) = [3, 5, 1] \<and>
   (\<exists>db'. create_daily_quiz_schedules no_faults 300000 (AsyncSessionLocal True example_database)
            = Inr db' \<and>
          entries_on (committed db') (u_id example_user) (date_of 300000) =
            [\<lparr>dq_user_id = 1, scheduled_date = 300000, topics = [10, 20, 30],
              questions_per_topic = 1, is_completed = False\<rparr>])"
proof -
  have keys: "users_pk example_database" "one_entry_per_user_day example_database"
    "topics_keys example_database"
    by (simp_all add: users_pk_def one_entry_per_user_day_def topics_keys_def
          example_database_def example_user_def idle_user_def)
  have ok: "\<not> commit_fails no_faults" by (simp add: no_faults_def)
  have user: "example_user \<in> set (tbl_users example_database)" "u_is_active example_user"
    by (simp_all add: example_database_def example_user_def)
  have none: "entries_on example_database (u_id example_user) (date_of 300000) = []"
    by (simp add: entries_on_def example_database_def)
  have active: "map priority (active_topics example_database example_user) = [3, 5, 1]"
    by (simp add: active_topics_def example_database_def example_user_def)
  have query: "map topic_id (take 5 (map fst (user_topics_query example_database example_user)))
                 = [10, 20, 30]"
    by (simp add: user_topics_query_def example_database_def example_user_def)
  from generator_creates_one_entry [OF keys ok user none, of True]
  obtain db' where
    "create_daily_quiz_schedules no_faults 300000 (AsyncSessionLocal True example_database) = Inr db'"
    and "entries_on (committed db') (u_id example_user) (date_of 300000) =
           (if active_topics example_database example_user = [] then []
            else [\<lparr>dq_user_id = u_id example_user, scheduled_date = 300000,
                    topics = map topic_id (take 5 (map fst
                               (user_topics_query example_database example_user))),
                    questions_per_topic = 1, is_completed = False\<rparr>])"
    by blast
  moreover have "active_topics example_database example_user \<noteq> []"
    using active by auto
  moreover have "u_id example_user = 1" by (simp add: example_user_def)
  ultimately have "\<exists>db'. create_daily_quiz_schedules no_faults 300000
                           (AsyncSessionLocal True example_database) = Inr db' \<and>
          entries_on (committed db') (u_id example_user) (date_of 300000) =
            [\<lparr>dq_user_id = 1, scheduled_date = 300000, topics = [10, 20, 30],
              questions_per_topic = 1, is_completed = False\<rparr>]"
    using query by auto
  with keys ok user none active show ?thesis by blast
qed

subsection \<open>Running the generator twice\<close>

text \<open>
  C5. Let \<open>users.id\<close> be a key and no user have two schedules on one day. Run the
  generator twice in succession on the same calendar day, with any faults. Then still no
  user has two schedules on one day. When the first commit succeeds, the second run
  changes nothing, and for every active user the number of schedules of that day has
  grown by exactly one if the user was due one (no schedule yet, some active topic) and
  by none otherwise.
\<close>

theorem generation_idempotent:
  assumes "users_pk d" and "one_entry_per_user_day d" and "date_of now2 = date_of now1"
  shows "one_entry_per_user_day (generator_run flush f2 now2 (generator_run flush f1 now1 d)) \<and>
         (\<not> commit_fails f1 \<longrightarrow>
            generator_run flush f2 now2 (generator_run flush f1 now1 d)
              = generator_run flush f1 now1 d \<and>
            (\<forall>user\<in>set (tbl_users d). u_is_active user \<longrightarrow>
               length (entries_on (generator_run flush f2 now2 (generator_run flush f1 now1 d))
                         (u_id user) (date_of now1))
                 = length (entries_on d (u_id user) (date_of now1)) +
                   (if eligible d (date_of now1) user then 1 else 0) \<and>
               length (entries_on (generator_run flush f2 now2 (generator_run flush f1 now1 d))
                         (u_id user) (date_of now1)) \<le> 1))"
proof -
  let ?d1 = "generator_run flush f1 now1 d"
  let ?d2 = "generator_run flush f2 now2 ?d1"
  have inv1: "users_pk ?d1" "one_entry_per_user_day ?d1"
    using generator_run_invariant [OF assms(1,2)] by simp_all
  have inv2: "one_entry_per_user_day ?d2"
    using generator_run_invariant [OF inv1] by simp
  have rest: "?d2 = ?d1 \<and>
        (\<forall>user\<in>set (tbl_users d). u_is_active user \<longrightarrow>
           length (entries_on ?d2 (u_id user) (date_of now1))
             = length (entries_on d (u_id user) (date_of now1)) +
               (if eligible d (date_of now1) user then 1 else 0) \<and>
           length (entries_on ?d2 (u_id user) (date_of now1)) \<le> 1)"
    if ok: "\<not> commit_fails f1"
  proof -
    let ?d' = "d\<lparr>tbl_daily_quiz_schedules := tbl_daily_quiz_schedules d @ created d now1\<rparr>"
    have d1: "?d1 = ?d'"
      using ok by (simp add: generator_run_result [OF assms(1,2)])
    have "created ?d' now2 = []"
      using assms(1,3) by (rule second_run_creates_nothing)
    then have same: "?d2 = ?d1"
      using generator_run_result [OF inv1, of flush f2 now2] d1 by simp
    have "length (entries_on ?d2 (u_id user) (date_of now1))
             = length (entries_on d (u_id user) (date_of now1)) +
               (if eligible d (date_of now1) user then 1 else 0)"
      if "user \<in> set (tbl_users d)" and "u_is_active user" for user
      using entries_on_after [OF assms(1) that, of now1] same d1 by simp
    moreover have "length (entries_on ?d2 uid (date_of now1)) \<le> 1" for uid
      using inv2 by (rule entries_on_short)
    ultimately show ?thesis using same by blast
  qed
  from inv2 rest show ?thesis by blast
qed

text \<open>Two runs ten minutes apart on the example: user 1 ends with one schedule.\<close>

theorem generation_idempotent_witness:
  "users_pk example_database \<and> one_entry_per_user_day example_database \<and>
   date_of 300600 = date_of 300000 \<and> \<not> commit_fails no_faults \<and>
   example_user \<in> set (tbl_users example_database) \<and> u_is_active example_user \<and>
   eligible example_database (date_of 300000) example_user \<and>
   generator_run True no_faults 300600 (generator_run True no_faults 300000 example_database)
     = generator_run True no_faults 300000 example_database \<and>
   length (entries_on
             (generator_run True no_faults 300600
                (generator_run True no_faults 300000 example_database))
             (u_id example_user) (date_of 300000)) = 1 \<and>
   one_entry_per_user_day
     (generator_run True no_faults 300600 (generator_run True no_faults 300000 example_database))"
proof -
  have keys: "users_pk example_database" "one_entry_per_user_day example_database"
    by (simp_all add: users_pk_def one_entry_per_user_day_def
          example_database_def example_user_def idle_user_def)
  have day: "date_of 300600 = date_of 300000" by (simp add: date_of_def)
  have ok: "\<not> commit_fails no_faults" by (simp add: no_faults_def)
  have user: "example_user \<in> set (tbl_users example_database)" "u_is_active example_user"
    by (simp_all add: example_database_def example_user_def)
  have none: "entries_on example_database (u_id example_user) (date_of 300000) = []"
    by (simp add: entries_on_def example_database_def)
  have el: "eligible example_database (date_of 300000) example_user"
    by (simp add: eligible_def none)
       (simp add: user_topics_query_def example_database_def example_user_def)
  from generation_idempotent [OF keys day, of True no_faults no_faults] ok user el none
  show ?thesis using keys day by auto
qed

text \<open>User 2 of the example follows no topic: the run creates nothing for that user.\<close>

lemma generator_skips_user_without_topics:
  "create_daily_quiz_schedules no_faults 300000 (AsyncSessionLocal True example_database)
     = Inr (AsyncSessionLocal True (generator_run True no_faults 300000 example_database)) \<and>
   entries_on (generator_run True no_faults 300000 example_database) (u_id idle_user)
     (date_of 300000) = [] \<and>
   length (tbl_daily_quiz_schedules (generator_run True no_faults 300000 example_database)) = 1"
proof -
  have keys: "users_pk example_database" "one_entry_per_user_day example_database"
    by (simp_all add: users_pk_def one_entry_per_user_day_def
          example_database_def example_user_def idle_user_def)
  have made: "created example_database 300000 = [new_quiz_schedule example_database 300000 example_user]"
    by (simp add: created_def eligible_def entries_on_def user_topics_query_def
          example_database_def example_user_def idle_user_def)
  show ?thesis
    by (simp add: create_daily_quiz_schedules_result [OF keys] generator_run_result [OF keys]
          made no_faults_def entries_on_def)
       (simp add: example_database_def example_user_def idle_user_def)
qed

section \<open>Properties of the notification dispatcher\<close>

subsection \<open>One send and the loop\<close>

lemma send_quiz_reminder_None:
  "fst (send_quiz_reminder self sf utcnow user None True w) =
     (firebase_app self \<and> \<not> record_fails sf)"
  by (simp add: send_quiz_reminder_def send_notification_def Let_def)

lemma send_quiz_reminder_frame:
  "tbl_notification_schedules (w_db (snd (send_quiz_reminder self sf utcnow user tok db w)))
     = tbl_notification_schedules (w_db w)"
  "tbl_users (w_db (snd (send_quiz_reminder self sf utcnow user tok db w))) = tbl_users (w_db w)"
  "tbl_daily_quiz_schedules (w_db (snd (send_quiz_reminder self sf utcnow user tok db w)))
     = tbl_daily_quiz_schedules (w_db w)"
  by (simp_all add: send_quiz_reminder_def send_notification_def Let_def split: option.splits)

lemma send_quiz_reminder_None_log:
  "w_fcm (snd (send_quiz_reminder self sf utcnow user None db w)) = w_fcm w"
  "w_calls (snd (send_quiz_reminder self sf utcnow user None db w)) = w_calls w @ [(u_id user, None)]"
  by (simp_all add: send_quiz_reminder_def send_notification_def Let_def)

lemma reschedule_ns_id [simp]: "ns_id (reschedule utcnow row) = ns_id row"
  by (simp add: reschedule_def Let_def)

lemma reschedule_idem [simp]: "reschedule utcnow (reschedule utcnow row) = reschedule utcnow row"
  by (simp add: reschedule_def Let_def)

lemma update_schedule_tables [simp]:
  "tbl_notification_schedules (update_schedule k g d) =
     map (\<lambda>row. if ns_id row = k then g row else row) (tbl_notification_schedules d)"
  "tbl_users (update_schedule k g d) = tbl_users d"
  "tbl_daily_quiz_schedules (update_schedule k g d) = tbl_daily_quiz_schedules d"
  by (simp_all add: update_schedule_def)

lemma process_loop_step:
  "process_loop self f utcnow (p # ps) w =
     (let k = ns_id (p_schedule p);
          w1 = snd (send_quiz_reminder self (send_faults_of f k) utcnow (p_user p) None True w)
      in if send_ok self f k
         then (if update_fails f k then w1
               else process_loop self f utcnow ps
                      (w1\<lparr>w_db := update_schedule k (reschedule utcnow) (w_db w1)\<rparr>))
         else process_loop self f utcnow ps w1)"
  by (simp add: Let_def split_beta send_quiz_reminder_None send_ok_def)

lemma process_loop_schedules:
  "tbl_notification_schedules (w_db (process_loop self f utcnow ps w)) =
     map (\<lambda>row. if ns_id row \<in> set (dispatched self f ps) then reschedule utcnow row else row)
         (tbl_notification_schedules (w_db w))"
proof (induction ps arbitrary: w)
  case Nil
  then show ?case by simp
next
  case (Cons p ps)
  let ?k = "ns_id (p_schedule p)"
  let ?w1 = "snd (send_quiz_reminder self (send_faults_of f ?k) utcnow (p_user p) None True w)"
  have w1: "tbl_notification_schedules (w_db ?w1) = tbl_notification_schedules (w_db w)"
    by (rule send_quiz_reminder_frame)
  show ?case
  proof (cases "send_ok self f ?k")
    case False
    then show ?thesis
      by (simp only: process_loop_step Let_def dispatched.simps if_False Cons.IH w1)
  next
    case ok: True
    show ?thesis
    proof (cases "update_fails f ?k")
      case True
      with ok show ?thesis
        by (simp only: process_loop_step Let_def dispatched.simps if_True w1) simp
    next
      case False
      let ?w2 = "?w1\<lparr>w_db := update_schedule ?k (reschedule utcnow) (w_db ?w1)\<rparr>"
      have "tbl_notification_schedules (w_db (process_loop self f utcnow (p # ps) w)) =
              tbl_notification_schedules (w_db (process_loop self f utcnow ps ?w2))"
        using ok False by (simp only: process_loop_step Let_def if_True if_False)
      also have "\<dots> = map (\<lambda>row. if ns_id row \<in> set (dispatched self f ps)
                                  then reschedule utcnow row else row)
                          (tbl_notification_schedules (w_db ?w2))"
        by (rule Cons.IH)
      also have "\<dots> = map (\<lambda>row. if ns_id row \<in> set (?k # dispatched self f ps)
                                  then reschedule utcnow row else row)
                          (tbl_notification_schedules (w_db w))"
        by (simp add: w1)
      finally show ?thesis
        using ok False by simp
    qed
  qed
qed

lemma process_loop_frame:
  "tbl_users (w_db (process_loop self f utcnow ps w)) = tbl_users (w_db w) \<and>
   tbl_daily_quiz_schedules (w_db (process_loop self f utcnow ps w))
     = tbl_daily_quiz_schedules (w_db w) \<and>
   w_fcm (process_loop self f utcnow ps w) = w_fcm w"
proof (induction ps arbitrary: w)
  case Nil
  then show ?case by simp
next
  case (Cons p ps)
  show ?case
    by (simp only: process_loop_step Let_def)
       (simp add: Cons.IH send_quiz_reminder_frame send_quiz_reminder_None_log)
qed

lemma process_loop_calls:
  "\<exists>ps'. set ps' \<subseteq> set ps \<and>
     w_calls (process_loop self f utcnow ps w) =
       w_calls w @ map (\<lambda>p. (u_id (p_user p), None)) ps'"
proof (induction ps arbitrary: w)
  case Nil
  then show ?case by simp
next
  case (Cons p ps)
  let ?k = "ns_id (p_schedule p)"
  let ?w1 = "snd (send_quiz_reminder self (send_faults_of f ?k) utcnow (p_user p) None True w)"
  let ?w2 = "?w1\<lparr>w_db := update_schedule ?k (reschedule utcnow) (w_db ?w1)\<rparr>"
  have c1: "w_calls ?w1 = w_calls w @ [(u_id (p_user p), None)]"
    by (rule send_quiz_reminder_None_log)
  consider (stop) "process_loop self f utcnow (p # ps) w = ?w1"
    | (go1) "process_loop self f utcnow (p # ps) w = process_loop self f utcnow ps ?w1"
    | (go2) "process_loop self f utcnow (p # ps) w = process_loop self f utcnow ps ?w2"
    by (simp only: process_loop_step Let_def split: if_splits) metis
  then show ?case
  proof cases
    case stop
    have "set [p] \<subseteq> set (p # ps)" by simp
    moreover have "w_calls ?w1 = w_calls w @ map (\<lambda>p. (u_id (p_user p), None)) [p]"
      using c1 by simp
    ultimately show ?thesis unfolding stop by blast
  next
    case go1
    from Cons.IH [of ?w1] obtain ps' where "set ps' \<subseteq> set ps"
      and "w_calls (process_loop self f utcnow ps ?w1) =
             w_calls ?w1 @ map (\<lambda>p. (u_id (p_user p), None)) ps'" by blast
    then have "set (p # ps') \<subseteq> set (p # ps)"
      and "w_calls (process_loop self f utcnow ps ?w1) =
             w_calls w @ map (\<lambda>p. (u_id (p_user p), None)) (p # ps')"
      using c1 by auto
    then show ?thesis unfolding go1 by blast
  next
    case go2
    from Cons.IH [of ?w2] obtain ps' where "set ps' \<subseteq> set ps"
      and "w_calls (process_loop self f utcnow ps ?w2) =
             w_calls ?w2 @ map (\<lambda>p. (u_id (p_user p), None)) ps'" by blast
    then have "set (p # ps') \<subseteq> set (p # ps)"
      and "w_calls (process_loop self f utcnow ps ?w2) =
             w_calls w @ map (\<lambda>p. (u_id (p_user p), None)) (p # ps')"
      using c1 by auto
    then show ?thesis unfolding go2 by blast
  qed
qed


subsection \<open>The stored row of a schedule\<close>

lemma find_map_keeping_id:
  assumes "\<And>row. ns_id (g row) = ns_id row"
  shows "find (\<lambda>row. ns_id row = k) (map g rows) = map_option g (find (\<lambda>row. ns_id row = k) rows)"
  by (induction rows) (simp_all add: assms)

lemma find_row_id: "find (\<lambda>row. ns_id row = k) rows = Some s \<Longrightarrow> ns_id s = k"
  by (induction rows) (auto split: if_splits)

lemma find_pk:
  "distinct (map ns_id rows) \<Longrightarrow> s \<in> set rows \<Longrightarrow> find (\<lambda>row. ns_id row = ns_id s) rows = Some s"
  by (induction rows) (auto simp: image_iff)

lemma schedule_row_after:
  "schedule_row (w_db (process_pending_notifications self f utcnow now w)) k =
     map_option
       (\<lambda>row. if k \<in> set (dispatched self f
                              (get_pending_notifications (select_fails f) (w_db w) utcnow now))
               then reschedule utcnow row else row)
       (schedule_row (w_db w) k)"
proof -
  let ?D = "set (dispatched self f (get_pending_notifications (select_fails f) (w_db w) utcnow now))"
  let ?g = "\<lambda>row. if ns_id row \<in> ?D then reschedule utcnow row else row"
  have "schedule_row (w_db (process_pending_notifications self f utcnow now w)) k =
          map_option ?g (schedule_row (w_db w) k)"
    unfolding schedule_row_def process_pending_notifications_def process_loop_schedules
    by (rule find_map_keeping_id) simp
  then show ?thesis
    by (cases "schedule_row (w_db w) k")
       (auto simp: schedule_row_def dest: find_row_id)
qed

lemma dispatched_subset:
  "k \<in> set (dispatched self f ps) \<Longrightarrow>
   send_ok self f k \<and> \<not> update_fails f k \<and> k \<in> set (map (\<lambda>p. ns_id (p_schedule p)) ps)"
  by (induction ps) (auto split: if_splits)

lemma dispatched_all:
  assumes "firebase_app self" and "\<forall>k. \<not> record_fails (send_faults_of f k) \<and> \<not> update_fails f k"
  shows "dispatched self f ps = map (\<lambda>p. ns_id (p_schedule p)) ps"
  using assms by (induction ps) (simp_all add: send_ok_def)

subsection \<open>The selection\<close>

lemma collect_pending_result:
  "collect_pending d today rows acc = Inr ps \<Longrightarrow>
   ps = acc @ map (\<lambda>(schedule, user). \<lparr>p_schedule = schedule, p_user = user,
                     p_title = title_template schedule, p_message = message_template schedule\<rparr>)
                  (filter (\<lambda>(schedule, user). completed_quizzes d user today = []) rows)"
proof (induction rows arbitrary: acc ps)
  case Nil
  then show ?case by simp
next
  case (Cons row rows)
  obtain schedule user where row: "row = (schedule, user)" by (cases row)
  show ?case
  proof (cases "completed_quizzes d user today" rule: scalar_one_or_none.cases)
    case 1
    with Cons.prems have "collect_pending d today rows
        (acc @ [\<lparr>p_schedule = schedule, p_user = user, p_title = title_template schedule,
                  p_message = message_template schedule\<rparr>]) = Inr ps"
      by (simp add: row)
    from Cons.IH [OF this] 1 show ?thesis by (simp add: row)
  next
    case (2 q)
    with Cons.prems have "collect_pending d today rows acc = Inr ps"
      by (simp add: row)
    from Cons.IH [OF this] 2 show ?thesis by (simp add: row)
  next
    case (3 q q' rest)
    with Cons.prems show ?thesis by (simp add: row)
  qed
qed

lemma due_schedules_iff:
  "(s, u) \<in> set (due_schedules d now) \<longleftrightarrow>
     s \<in> set (tbl_notification_schedules d) \<and> u \<in> set (tbl_users d) \<and>
     ns_user_id s = u_id u \<and> is_due now s u"
  by (auto simp: due_schedules_def)

lemma pending_selected:
  assumes "p \<in> set (get_pending_notifications qf d utcnow now)"
  shows "(p_schedule p, p_user p) \<in> set (due_schedules d utcnow) \<and>
         completed_quizzes d (p_user p) (date_of now) = []"
proof -
  show ?thesis
  proof (cases "collect_pending d (date_of now) (due_schedules d utcnow) []")
    case (Inl e)
    with assms show ?thesis
      by (simp add: get_pending_notifications_def split: if_splits)
  next
    case (Inr ps)
    with assms have "p \<in> set ps"
      by (simp add: get_pending_notifications_def split: if_splits)
    with collect_pending_result [OF Inr] show ?thesis by auto
  qed
qed

lemma completed_quizzes_user:
  "u_id u' = u_id u \<Longrightarrow> completed_quizzes d u' today = completed_quizzes d u today"
  by (simp add: completed_quizzes_def)

lemma completed_today_query:
  assumes "completed_today d u now"
  shows "completed_quizzes d u (date_of now) \<noteq> []"
proof -
  from assms obtain q where q: "q \<in> set (tbl_daily_quiz_schedules d)"
    and "dq_user_id q = u_id u" "date_of (scheduled_date q) = date_of now" "is_completed q"
    by (auto simp: completed_today_def list_ex_iff)
  moreover from this have "midnight (date_of now) \<le> scheduled_date q"
    using same_day_iff [of "date_of now" "scheduled_date q"] by simp
  ultimately have "q \<in> set (completed_quizzes d u (date_of now))"
    by (simp add: completed_quizzes_def)
  then show ?thesis by auto
qed

subsection \<open>A successful dispatch\<close>

lemma reschedule_fields:
  "last_sent (reschedule utcnow row) = Some utcnow"
  "scheduled_time (reschedule utcnow row) = scheduled_time row"
  "frequency (reschedule utcnow row) = frequency row"
  "frequency row = ''daily'' \<Longrightarrow> next_send (reschedule utcnow row) = Some (scheduled_time row + 24 * 3600)"
  "frequency row = ''weekly'' \<Longrightarrow> next_send (reschedule utcnow row) = Some (scheduled_time row + 7 * 86400)"
  "frequency row = ''monthly'' \<Longrightarrow> next_send (reschedule utcnow row) = Some (scheduled_time row + 30 * 86400)"
  "frequency row \<noteq> ''daily'' \<Longrightarrow> frequency row \<noteq> ''weekly'' \<Longrightarrow> frequency row \<noteq> ''monthly'' \<Longrightarrow>
     next_send (reschedule utcnow row) = next_send row"
  by (simp_all add: reschedule_def Let_def timedelta_def)

text \<open>
  C4. When the schedule with key \<open>k\<close> is dispatched successfully in a run (selected,
  sent, and its update committed), the stored schedule afterwards has
  \<open>last_sent\<close> equal to the time of the run, and \<open>next_send\<close> equal to its
  \<open>scheduled_time\<close> plus 24 hours when its frequency is daily, plus 7 days when
  weekly, plus 30 days when monthly; \<open>scheduled_time\<close> and frequency stay as
  they were.
\<close>

theorem successful_dispatch_reschedules:
  assumes "schedule_row (w_db w) k = Some s"
    and "k \<in> set (dispatched self f
                    (get_pending_notifications (select_fails f) (w_db w) utcnow now))"
  shows "\<exists>s'. schedule_row (w_db (process_pending_notifications self f utcnow now w)) k = Some s' \<and>
           last_sent s' = Some utcnow \<and>
           (frequency s = ''daily'' \<longrightarrow> next_send s' = Some (scheduled_time s + 24 * 3600)) \<and>
           (frequency s = ''weekly'' \<longrightarrow> next_send s' = Some (scheduled_time s + 7 * 86400)) \<and>
           (frequency s = ''monthly'' \<longrightarrow> next_send s' = Some (scheduled_time s + 30 * 86400)) \<and>
           scheduled_time s' = scheduled_time s \<and> frequency s' = frequency s"
proof -
  have "schedule_row (w_db (process_pending_notifications self f utcnow now w)) k =
          Some (reschedule utcnow s)"
    using assms by (simp add: schedule_row_after)
  then show ?thesis
    by (simp add: reschedule_fields)
qed

text \<open>The example at time 300000: the reminder of user 1 is the one pending pair.\<close>

lemma ex_pending:
  "get_pending_notifications (select_fails quiet) (w_db example_world) 300000 300000 =
     [\<lparr>p_schedule = example_schedule, p_user = example_user,
       p_title = ''Daily Quiz Reminder'', p_message = ''Time to complete your daily quiz!''\<rparr>]"
  by (simp add: get_pending_notifications_def quiet_def example_world_def example_database_def
        due_schedules_def is_due_def example_schedule_def example_user_def idle_user_def
        completed_quizzes_def)

theorem successful_dispatch_reschedules_witness:
  "schedule_row (w_db example_world) 7 = Some example_schedule \<and>
   7 \<in> set (dispatched example_service quiet
               (get_pending_notifications (select_fails quiet) (w_db example_world) 300000 300000)) \<and>
   frequency example_schedule = ''daily'' \<and> scheduled_time example_schedule = 0 \<and>
   (\<exists>s'. schedule_row (w_db (process_pending_notifications example_service quiet 300000 300000
                                example_world)) 7 = Some s' \<and>
         last_sent s' = Some 300000 \<and> next_send s' = Some 86400)"
proof -
  have row: "schedule_row (w_db example_world) 7 = Some example_schedule"
    by (simp add: schedule_row_def example_world_def example_database_def example_schedule_def)
  have sent: "7 \<in> set (dispatched example_service quiet
               (get_pending_notifications (select_fails quiet) (w_db example_world) 300000 300000))"
    by (simp add: ex_pending send_ok_def example_service_def)
       (simp add: quiet_def example_schedule_def)
  have daily: "frequency example_schedule = ''daily''" "scheduled_time example_schedule = 0"
    by (simp_all add: example_schedule_def)
  from successful_dispatch_reschedules [OF row sent] daily row sent
  show ?thesis by auto
qed


subsection \<open>Schedules that are skipped or whose send fails\<close>

lemma not_dispatched_unchanged:
  assumes "k \<notin> set (dispatched self f
                     (get_pending_notifications (select_fails f) (w_db w) utcnow now))"
  shows "schedule_row (w_db (process_pending_notifications self f utcnow now w)) k =
           schedule_row (w_db w) k"
  using assms by (simp add: schedule_row_after option.map_ident)

lemma still_due:
  assumes due: "(s, u) \<in> set (due_schedules (w_db w) utcnow)"
    and k: "ns_id s \<notin> set (dispatched self f
                     (get_pending_notifications (select_fails f) (w_db w) utcnow now))"
    and later: "utcnow \<le> utcnow'"
  shows "(s, u) \<in> set (due_schedules (w_db (process_pending_notifications self f utcnow now w)) utcnow')"
proof -
  let ?w' = "process_pending_notifications self f utcnow now w"
  let ?D = "set (dispatched self f (get_pending_notifications (select_fails f) (w_db w) utcnow now))"
  from due have s: "s \<in> set (tbl_notification_schedules (w_db w))"
    and u: "u \<in> set (tbl_users (w_db w))" and j: "ns_user_id s = u_id u"
    and d: "is_due utcnow s u"
    by (simp_all add: due_schedules_iff)
  have "(if ns_id s \<in> ?D then reschedule utcnow s else s) \<in>
          set (tbl_notification_schedules (w_db ?w'))"
    unfolding process_pending_notifications_def process_loop_schedules using s by force
  with k have "s \<in> set (tbl_notification_schedules (w_db ?w'))" by simp
  moreover have "u \<in> set (tbl_users (w_db ?w'))"
    using u by (simp add: process_pending_notifications_def process_loop_frame)
  moreover have "is_due utcnow' s u"
    using d later by (auto simp: is_due_def split: option.splits)
  ultimately show ?thesis
    using j by (simp add: due_schedules_iff)
qed

text \<open>
  C7. Let \<open>(s, u)\<close> be a pair the due query selects, in a table where the schedule
  id is a key. If the user has completed today's quiz, or if the send for the pair
  fails, the run leaves the stored schedule exactly as it was (so \<open>last_sent\<close> and
  \<open>next_send\<close> are unchanged), and the pair is selected as due again by the query
  of any later run. In the first case no send at all is made for that user in the run.
\<close>

theorem skipped_or_failed_send_leaves_schedule:
  assumes "schedules_pk (w_db w)"
    and "(s, u) \<in> set (due_schedules (w_db w) utcnow)"
    and "completed_today (w_db w) u now \<or>
         \<not> fst (send_quiz_reminder self (send_faults_of f (ns_id s)) utcnow u None True w)"
    and "utcnow \<le> utcnow'"
  shows "schedule_row (w_db (process_pending_notifications self f utcnow now w)) (ns_id s) = Some s \<and>
         (s, u) \<in> set (due_schedules (w_db (process_pending_notifications self f utcnow now w))
                        utcnow') \<and>
         (completed_today (w_db w) u now \<longrightarrow>
            (\<exists>calls. w_calls (process_pending_notifications self f utcnow now w)
                        = w_calls w @ calls \<and>
                      u_id u \<notin> set (map fst calls)))"
proof -
  let ?ps = "get_pending_notifications (select_fails f) (w_db w) utcnow now"
  let ?w' = "process_pending_notifications self f utcnow now w"
  from assms(2) have s: "s \<in> set (tbl_notification_schedules (w_db w))"
    and j: "ns_user_id s = u_id u"
    by (simp_all add: due_schedules_iff)
  have row: "schedule_row (w_db w) (ns_id s) = Some s"
    using assms(1) s unfolding schedule_row_def schedules_pk_def by (rule find_pk)
  have skipped: "u_id (p_user p) \<noteq> u_id u" if c: "completed_today (w_db w) u now" and p: "p \<in> set ?ps" for p
  proof
    assume "u_id (p_user p) = u_id u"
    then have "completed_quizzes (w_db w) (p_user p) (date_of now) =
                 completed_quizzes (w_db w) u (date_of now)"
      by (rule completed_quizzes_user)
    with pending_selected [OF p] completed_today_query [OF c] show False by simp
  qed
  have out: "ns_id s \<notin> set (dispatched self f ?ps)"
  proof
    assume d: "ns_id s \<in> set (dispatched self f ?ps)"
    from dispatched_subset [OF d] have ok: "send_ok self f (ns_id s)"
      and "ns_id s \<in> set (map (\<lambda>p. ns_id (p_schedule p)) ?ps)" by simp_all
    then obtain p where p: "p \<in> set ?ps" and id: "ns_id (p_schedule p) = ns_id s" by auto
    from pending_selected [OF p] have "p_schedule p \<in> set (tbl_notification_schedules (w_db w))"
      and pj: "ns_user_id (p_schedule p) = u_id (p_user p)"
      by (simp_all add: due_schedules_iff)
    with assms(1) s id have "p_schedule p = s"
      unfolding schedules_pk_def by (metis distinct_map inj_onD)
    with pj j have same: "u_id (p_user p) = u_id u" by simp
    from assms(3) show False
    proof
      assume "completed_today (w_db w) u now"
      from skipped [OF this p] same show False by simp
    next
      assume "\<not> fst (send_quiz_reminder self (send_faults_of f (ns_id s)) utcnow u None True w)"
      with ok show False by (simp add: send_quiz_reminder_None send_ok_def)
    qed
  qed
  have unchanged: "schedule_row (w_db ?w') (ns_id s) = Some s"
    using not_dispatched_unchanged [OF out] row by simp
  have due: "(s, u) \<in> set (due_schedules (w_db ?w') utcnow')"
    using assms(2) out assms(4) by (rule still_due)
  have quiet_user: "\<exists>calls. w_calls ?w' = w_calls w @ calls \<and> u_id u \<notin> set (map fst calls)"
    if c: "completed_today (w_db w) u now"
  proof -
    from process_loop_calls [of ?ps self f utcnow w]
    obtain ps' where sub: "set ps' \<subseteq> set ?ps"
      and calls: "w_calls ?w' = w_calls w @ map (\<lambda>p. (u_id (p_user p), None)) ps'"
      unfolding process_pending_notifications_def by blast
    have "\<forall>p\<in>set ps'. u_id (p_user p) \<noteq> u_id u"
      using skipped [OF c] sub by blast
    then have "u_id u \<notin> set (map fst (map (\<lambda>p. (u_id (p_user p), None :: string option)) ps'))"
      by (auto simp: image_iff)
    with calls show ?thesis by blast
  qed
  from unchanged due quiet_user show ?thesis by blast
qed


text \<open>
  Both cases on the example: user 1 with a completed quiz of the day, and a service
  whose Firebase app is missing.
\<close>

theorem skipped_or_failed_send_leaves_schedule_witness:
  "schedules_pk (w_db completed_world) \<and>
   (example_schedule, example_user) \<in> set (due_schedules (w_db completed_world) 300000) \<and>
   completed_today (w_db completed_world) example_user 300000 \<and>
   schedule_row (w_db (process_pending_notifications example_service quiet 300000 300000
                         completed_world)) (ns_id example_schedule) = Some example_schedule \<and>
   w_calls (process_pending_notifications example_service quiet 300000 300000 completed_world) = [] \<and>
   schedules_pk (w_db example_world) \<and>
   (example_schedule, example_user) \<in> set (due_schedules (w_db example_world) 300000) \<and>
   \<not> fst (send_quiz_reminder no_firebase (send_faults_of quiet (ns_id example_schedule)) 300000
            example_user None True example_world) \<and>
   schedule_row (w_db (process_pending_notifications no_firebase quiet 300000 300000
                         example_world)) (ns_id example_schedule) = Some example_schedule \<and>
   (example_schedule, example_user)
     \<in> set (due_schedules (w_db (process_pending_notifications no_firebase quiet 300000 300000
                                    example_world)) 300900)"
proof -
  have pk: "schedules_pk (w_db completed_world)" "schedules_pk (w_db example_world)"
    by (simp_all add: schedules_pk_def completed_world_def example_world_def example_database_def)
  have due: "(example_schedule, example_user) \<in> set (due_schedules (w_db completed_world) 300000)"
    "(example_schedule, example_user) \<in> set (due_schedules (w_db example_world) 300000)"
    by (simp_all add: due_schedules_iff completed_world_def example_world_def example_database_def
          is_due_def)
       (simp_all add: example_schedule_def example_user_def)
  have quiz: "completed_today (w_db completed_world) example_user 300000"
    by (simp add: completed_today_def completed_world_def example_world_def example_database_def
          example_user_def date_of_def)
  have fails: "\<not> fst (send_quiz_reminder no_firebase (send_faults_of quiet (ns_id example_schedule))
                       300000 example_user None True example_world)"
    by (simp add: send_quiz_reminder_None no_firebase_def)
  have silent: "w_calls (process_pending_notifications example_service quiet 300000 300000
                           completed_world) = []"
    by (simp add: process_pending_notifications_def get_pending_notifications_def quiet_def
          completed_world_def example_world_def example_database_def due_schedules_def is_due_def
          example_schedule_def example_user_def idle_user_def completed_quizzes_def
          midnight_def date_of_def)
  have later: "(300000::int) \<le> 300900" by simp
  from skipped_or_failed_send_leaves_schedule [OF pk(1) due(1) disjI1 [OF quiz] later,
         of example_service quiet]
       skipped_or_failed_send_leaves_schedule [OF pk(2) due(2) disjI2 [OF fails] later, of 300000]
       pk due quiz fails silent
  show ?thesis by simp
qed


subsection \<open>Sends without a token\<close>

text \<open>
  C9. Every send a run makes carries the token \<open>None\<close>, and a run hands no message
  to FCM. A \<open>send_notification\<close> with token \<open>None\<close> returns \<open>True\<close>, with
  nothing handed to FCM, whenever the Firebase app is initialized (and storing the
  notification row does not fail, when a session is passed). So with the app
  initialized and no persistence fault in the run, every pending pair counts as
  dispatched: the rows of their schedules are exactly the ones rewritten by the update,
  which sets \<open>last_sent\<close> to the time of the run.
\<close>

theorem dispatch_sends_without_token:
  "(\<exists>calls. w_calls (process_pending_notifications self f utcnow now w) = w_calls w @ calls \<and>
            list_all (\<lambda>c. snd c = None) calls) \<and>
   w_fcm (process_pending_notifications self f utcnow now w) = w_fcm w \<and>
   (firebase_app self \<and> \<not> (db \<and> record_fails sf) \<longrightarrow>
      fst (send_notification self sf utcnow uid title message ntype None data db w0) \<and>
      w_fcm (snd (send_notification self sf utcnow uid title message ntype None data db w0))
        = w_fcm w0) \<and>
   (firebase_app self \<and> (\<forall>k. \<not> record_fails (send_faults_of f k) \<and> \<not> update_fails f k) \<longrightarrow>
      dispatched self f (get_pending_notifications (select_fails f) (w_db w) utcnow now)
        = map (\<lambda>p. ns_id (p_schedule p))
              (get_pending_notifications (select_fails f) (w_db w) utcnow now) \<and>
      tbl_notification_schedules (w_db (process_pending_notifications self f utcnow now w))
        = map (\<lambda>row. if ns_id row \<in> set (map (\<lambda>p. ns_id (p_schedule p))
                                   (get_pending_notifications (select_fails f) (w_db w) utcnow now))
                       then reschedule utcnow row else row)
              (tbl_notification_schedules (w_db w)) \<and>
      (\<forall>row. last_sent (reschedule utcnow row) = Some utcnow))"
proof -
  let ?ps = "get_pending_notifications (select_fails f) (w_db w) utcnow now"
  let ?w' = "process_pending_notifications self f utcnow now w"
  from process_loop_calls [of ?ps self f utcnow w]
  obtain ps' where "set ps' \<subseteq> set ?ps" and
    "w_calls ?w' = w_calls w @ map (\<lambda>p. (u_id (p_user p), None)) ps'"
    unfolding process_pending_notifications_def by blast
  then have "w_calls ?w' = w_calls w @ map (\<lambda>p. (u_id (p_user p), None)) ps'" and
    "list_all (\<lambda>c. snd c = None)
       (map (\<lambda>p. (u_id (p_user p), None :: string option)) ps')"
    by (simp_all add: list_all_iff)
  then have calls: "\<exists>calls. w_calls ?w' = w_calls w @ calls \<and>
                            list_all (\<lambda>c. snd c = None) calls"
    by blast
  have fcm: "w_fcm ?w' = w_fcm w"
    by (simp add: process_pending_notifications_def process_loop_frame)
  have one: "fst (send_notification self sf utcnow uid title message ntype None data db w0) \<and>
      w_fcm (snd (send_notification self sf utcnow uid title message ntype None data db w0))
        = w_fcm w0"
    if "firebase_app self" and "\<not> (db \<and> record_fails sf)"
    using that by (simp add: send_notification_def Let_def)
  have all: "dispatched self f ?ps = map (\<lambda>p. ns_id (p_schedule p)) ?ps \<and>
      tbl_notification_schedules (w_db ?w')
        = map (\<lambda>row. if ns_id row \<in> set (map (\<lambda>p. ns_id (p_schedule p)) ?ps)
                       then reschedule utcnow row else row)
              (tbl_notification_schedules (w_db w))"
    if "firebase_app self" and "\<forall>k. \<not> record_fails (send_faults_of f k) \<and> \<not> update_fails f k"
  proof -
    have d: "dispatched self f ?ps = map (\<lambda>p. ns_id (p_schedule p)) ?ps"
      using that by (rule dispatched_all)
    have "tbl_notification_schedules (w_db ?w')
        = map (\<lambda>row. if ns_id row \<in> set (dispatched self f ?ps)
                       then reschedule utcnow row else row)
              (tbl_notification_schedules (w_db w))"
      unfolding process_pending_notifications_def by (rule process_loop_schedules)
    with d show ?thesis by simp
  qed
  have "\<forall>row. last_sent (reschedule utcnow row) = Some utcnow"
    by (simp add: reschedule_fields)
  with calls fcm one all show ?thesis by blast
qed

theorem dispatch_sends_without_token_witness:
  "firebase_app example_service \<and>
   w_calls (process_pending_notifications example_service quiet 300000 300000 example_world)
     = [(1, None)] \<and>
   w_fcm (process_pending_notifications example_service quiet 300000 300000 example_world) = [] \<and>
   fst (send_notification example_service \<lparr>record_fails = False, fcm_fails = False, mark_fails = False\<rparr>
          300000 1 ''title'' ''message'' ''quiz_reminder'' None None True example_world) \<and>
   tbl_notification_schedules
     (w_db (process_pending_notifications example_service quiet 300000 300000 example_world))
     = [example_schedule\<lparr>last_sent := Some 300000, next_send := Some 86400\<rparr>]"
proof -
  have fb: "firebase_app example_service" by (simp add: example_service_def)
  have nf: "\<forall>k. \<not> record_fails (send_faults_of quiet k) \<and> \<not> update_fails quiet k"
    by (simp add: quiet_def)
  have calls: "w_calls (process_pending_notifications example_service quiet 300000 300000
                          example_world) = [(1, None)]"
    by (simp add: process_pending_notifications_def ex_pending send_quiz_reminder_def
          send_notification_def Let_def example_service_def)
       (simp add: quiet_def example_world_def example_user_def example_schedule_def)
  have rows: "map (\<lambda>row. if ns_id row \<in> set (map (\<lambda>p. ns_id (p_schedule p))
                 (get_pending_notifications (select_fails quiet) (w_db example_world) 300000 300000))
                       then reschedule 300000 row else row)
              (tbl_notification_schedules (w_db example_world))
          = [example_schedule\<lparr>last_sent := Some 300000, next_send := Some 86400\<rparr>]"
    by (simp add: ex_pending)
       (simp add: example_world_def example_database_def reschedule_def example_schedule_def
          timedelta_def Let_def)
  have empty: "w_fcm example_world = []" by (simp add: example_world_def)
  from dispatch_sends_without_token [of example_service quiet 300000 300000 example_world True
         "\<lparr>record_fails = False, fcm_fails = False, mark_fails = False\<rparr>" 1 "''title''"
         "''message''" "''quiz_reminder''" None example_world]
       fb nf calls rows empty
  show ?thesis by simp
qed


subsection \<open>The history of \<open>next_send\<close>\<close>

text \<open>
  C3 as stated fails. The reminder of the example is anchored at time 0 and stores
  \<open>next_send = 200000\<close>; the run at 300000 sends it and sets \<open>next_send\<close> to
  \<open>0 + 86400\<close>, which is earlier.
\<close>

theorem next_send_moves_back:
  "next_send_of (w_db example_world) 7 = Some 200000 \<and>
   next_send_of (w_db (process_pending_notifications example_service quiet 300000 300000
                         example_world)) 7 = Some 86400 \<and>
   \<not> not_earlier (next_send_of (w_db example_world) 7)
         (next_send_of (w_db (process_pending_notifications example_service quiet 300000 300000
                                example_world)) 7)"
proof -
  have before: "next_send_of (w_db example_world) 7 = Some 200000"
    by (simp add: next_send_of_def schedule_row_def example_world_def example_database_def
          example_schedule_def)
  have sent: "7 \<in> set (dispatched example_service quiet
               (get_pending_notifications (select_fails quiet) (w_db example_world) 300000 300000))"
    by (simp add: ex_pending send_ok_def example_service_def)
       (simp add: quiet_def example_schedule_def)
  have "schedule_row (w_db (process_pending_notifications example_service quiet 300000 300000
                              example_world)) 7 = Some (reschedule 300000 example_schedule)"
    using sent
    by (simp add: schedule_row_after)
       (simp add: schedule_row_def example_world_def example_database_def example_schedule_def)
  then have after: "next_send_of (w_db (process_pending_notifications example_service quiet
                                          300000 300000 example_world)) 7 = Some 86400"
    by (simp add: next_send_of_def reschedule_def example_schedule_def timedelta_def Let_def)
  show ?thesis
    by (simp add: before after)
qed

lemma reschedule_twice: "reschedule u2 (reschedule u1 row) = reschedule u2 row"
  by (simp add: reschedule_def Let_def)

lemma next_send_reschedule: "next_send (reschedule u row) = next_send (reschedule 0 row)"
  by (simp add: reschedule_def Let_def)

lemma not_earlier_refl [simp]: "not_earlier x x"
  by (cases x) simp_all

lemma anchored_reschedule: "anchored (reschedule u row)"
  by (simp add: anchored_def reschedule_twice next_send_reschedule [of u])

lemma schedule_row_step:
  "schedule_row (w_db (process_pending_notifications self f utcnow now w)) k
     = schedule_row (w_db w) k \<or>
   schedule_row (w_db (process_pending_notifications self f utcnow now w)) k
     = map_option (reschedule utcnow) (schedule_row (w_db w) k)"
  by (cases "k \<in> set (dispatched self f
                          (get_pending_notifications (select_fails f) (w_db w) utcnow now))")
     (simp_all add: schedule_row_after option.map_ident)

text \<open>What the states of a sequence of runs hold for one row.\<close>

lemma dispatcher_runs_rows:
  "w' \<in> set (dispatcher_runs self rs w) \<Longrightarrow>
   schedule_row (w_db w') k = schedule_row (w_db w) k \<or>
   (\<exists>u. schedule_row (w_db w') k = map_option (reschedule u) (schedule_row (w_db w) k))"
proof (induction rs arbitrary: w)
  case Nil
  then show ?case by simp
next
  case (Cons r rs)
  let ?w1 = "process_pending_notifications self (r_faults r) (r_utcnow r) (r_now r) w"
  from Cons.prems consider "w' = w" | "w' \<in> set (dispatcher_runs self rs ?w1)" by auto
  then show ?case
  proof cases
    case 1
    then show ?thesis by simp
  next
    case 2
    have step: "schedule_row (w_db ?w1) k = schedule_row (w_db w) k \<or>
                schedule_row (w_db ?w1) k = map_option (reschedule (r_utcnow r)) (schedule_row (w_db w) k)"
      by (rule schedule_row_step)
    from Cons.IH [OF 2] step show ?thesis
      by (auto simp: option.map_comp comp_def reschedule_twice)
  qed
qed

lemma dispatcher_runs_values:
  assumes "x \<in> set (next_send_history self rs w k)"
  shows "x = next_send_of (w_db w) k \<or>
         (\<exists>row. schedule_row (w_db w) k = Some row \<and> x = next_send (reschedule 0 row))"
proof -
  from assms obtain w' where w': "w' \<in> set (dispatcher_runs self rs w)"
    and x: "x = next_send_of (w_db w') k"
    by (auto simp: next_send_history_def)
  from dispatcher_runs_rows [OF w', of k] show ?thesis
  proof
    assume "schedule_row (w_db w') k = schedule_row (w_db w) k"
    then show ?thesis by (simp add: x next_send_of_def)
  next
    assume "\<exists>u. schedule_row (w_db w') k = map_option (reschedule u) (schedule_row (w_db w) k)"
    then obtain u where u: "schedule_row (w_db w') k = map_option (reschedule u) (schedule_row (w_db w) k)"
      by blast
    show ?thesis
    proof (cases "schedule_row (w_db w) k")
      case None
      with u show ?thesis by (simp add: x next_send_of_def)
    next
      case (Some row)
      with u have "x = next_send (reschedule 0 row)"
        by (simp add: x next_send_of_def next_send_reschedule [of u])
      with Some show ?thesis by blast
    qed
  qed
qed

lemma history_sorted:
  "row_anchored (w_db w) k \<Longrightarrow> sorted_wrt not_earlier (next_send_history self rs w k)"
proof (induction rs arbitrary: w)
  case Nil
  then show ?case by (simp add: next_send_history_def)
next
  case (Cons r rs)
  let ?w1 = "process_pending_notifications self (r_faults r) (r_utcnow r) (r_now r) w"
  have hist: "next_send_history self (r # rs) w k =
                next_send_of (w_db w) k # next_send_history self rs ?w1 k"
    by (simp add: next_send_history_def)
  have head: "not_earlier (next_send_of (w_db w) k) x"
    if "x \<in> set (next_send_history self (r # rs) w k)" for x
    using dispatcher_runs_values [OF that] Cons.prems
    by (auto simp: row_anchored_def anchored_def next_send_of_def)
  have "row_anchored (w_db ?w1) k"
    using Cons.prems schedule_row_step [of self "r_faults r" "r_utcnow r" "r_now r" w k]
    by (cases "schedule_row (w_db w) k")
       (auto simp: row_anchored_def anchored_reschedule)
  then have "sorted_wrt not_earlier (next_send_history self rs ?w1 k)"
    by (rule Cons.IH)
  moreover have "\<forall>x\<in>set (next_send_history self rs ?w1 k). not_earlier (next_send_of (w_db w) k) x"
    using head by (simp add: hist)
  ultimately show ?case
    by (simp add: hist)
qed

text \<open>
  C3 (as amended). A run changes the \<open>next_send\<close> of a schedule only when it
  dispatches that schedule successfully, and then to the value the update computes from
  \<open>scheduled_time\<close> and the frequency. If the stored \<open>next_send\<close> is unset or not
  later than that value, then over any sequence of runs, with any faults, the
  \<open>next_send\<close> of the schedule never decreases.
\<close>

theorem next_send_monotone_when_anchored:
  "(next_send_of (w_db (process_pending_notifications self f utcnow now w)) k
      \<noteq> next_send_of (w_db w) k \<longrightarrow>
    k \<in> set (dispatched self f
               (get_pending_notifications (select_fails f) (w_db w) utcnow now)) \<and>
    (\<exists>row. schedule_row (w_db w) k = Some row \<and>
       next_send_of (w_db (process_pending_notifications self f utcnow now w)) k
         = next_send (reschedule utcnow row))) \<and>
   (row_anchored (w_db w) k \<longrightarrow> sorted_wrt not_earlier (next_send_history self rs w k))"
proof -
  have "k \<in> set (dispatched self f
               (get_pending_notifications (select_fails f) (w_db w) utcnow now)) \<and>
    (\<exists>row. schedule_row (w_db w) k = Some row \<and>
       next_send_of (w_db (process_pending_notifications self f utcnow now w)) k
         = next_send (reschedule utcnow row))"
    if "next_send_of (w_db (process_pending_notifications self f utcnow now w)) k
          \<noteq> next_send_of (w_db w) k"
    using that
    by (cases "schedule_row (w_db w) k")
       (auto simp: next_send_of_def schedule_row_after split: if_splits)
  then show ?thesis
    using history_sorted by blast
qed


theorem next_send_monotone_when_anchored_witness:
  "row_anchored (w_db anchored_world) 7 \<and>
   next_send_history example_service two_runs anchored_world 7
     = [Some 50000, Some 86400, Some 86400] \<and>
   sorted_wrt not_earlier (next_send_history example_service two_runs anchored_world 7) \<and>
   next_send_of (w_db (process_pending_notifications example_service quiet 60000 60000
                         anchored_world)) 7 \<noteq> next_send_of (w_db anchored_world) 7 \<and>
   7 \<in> set (dispatched example_service quiet
               (get_pending_notifications (select_fails quiet) (w_db anchored_world) 60000 60000))"
proof -
  have a: "row_anchored (w_db anchored_world) 7"
    by (simp add: row_anchored_def schedule_row_def anchored_world_def example_world_def
          example_database_def example_schedule_def anchored_def reschedule_def timedelta_def
          Let_def)
  have h: "next_send_history example_service two_runs anchored_world 7
             = [Some 50000, Some 86400, Some 86400]"
    by (simp add: next_send_history_def two_runs_def process_pending_notifications_def
          get_pending_notifications_def quiet_def anchored_world_def example_world_def
          example_database_def due_schedules_def is_due_def example_schedule_def example_user_def
          idle_user_def completed_quizzes_def send_quiz_reminder_def send_notification_def
          example_service_def update_schedule_def reschedule_def timedelta_def Let_def
          next_send_of_def schedule_row_def)
  have moved: "next_send_of (w_db (process_pending_notifications example_service quiet 60000 60000
                         anchored_world)) 7 \<noteq> next_send_of (w_db anchored_world) 7"
    using h by (simp add: next_send_history_def two_runs_def)
  from next_send_monotone_when_anchored [of example_service quiet 60000 60000 anchored_world 7
         two_runs] a h moved
  show ?thesis by simp
qed

end
